theory Spec2Isabelle
  imports Complex_Main "HOL-Library.AList"
begin

section \<open>Mix Curve Calculator\<close>

text \<open>
  JavaScript numbers are modelled as reals: the curve's control points (0, 0.25, 0.5, 0.75, 1)
  are exact binary fractions, and rounding of intermediate products is not represented.
\<close>

record point =
  pt_p :: real
  pt_v :: real

record mix =
  mix_low :: real
  mix_mid :: real
  mix_high :: real

text \<open>
  The \<open>interp\<close> helper of \<open>calculateMix\<close>. The JavaScript loop walks the pairs
  \<open>(points[i], points[i+1])\<close> from the left, returns at the first pair whose interval contains
  \<open>val\<close>, and falls through to the value of the last point. The helper is a closure that is
  only applied to the three literal arrays below, none of them empty, so the array is given as its
  first point and the remaining points. In these arrays the positions increase strictly, so
  \<open>range\<close> is never zero.
\<close>

fun interp :: "real \<Rightarrow> point \<Rightarrow> point list \<Rightarrow> real" where
  "interp val p1 [] = pt_v p1"
| "interp val p1 (p2 # ps) =
     (if val \<ge> pt_p p1 \<and> val \<le> pt_p p2 then
        (let range = pt_p p2 - pt_p p1;
             progress = (val - pt_p p1) / range
         in pt_v p1 + (pt_v p2 - pt_v p1) * progress)
      else interp val p2 ps)"

definition pnt :: "real \<Rightarrow> real \<Rightarrow> point" where
  "pnt p v = \<lparr>pt_p = p, pt_v = v\<rparr>"

definition calculateMix :: "real \<Rightarrow> mix" where
  "calculateMix intensity =
     (let low = interp intensity (pnt 0 1) [pnt 0.25 0, pnt 0.5 1, pnt 0.75 0, pnt 1 1];
          mid = interp intensity (pnt 0 0) [pnt 0.25 1, pnt 1 1];
          high = interp intensity (pnt 0 0) [pnt 0.5 0, pnt 0.75 1, pnt 1 1]
      in \<lparr>mix_low = low, mix_mid = mid, mix_high = high\<rparr>)"

datatype layer = Low | Mid | High

text \<open>The layers with a positive volume in a mix.\<close>

definition audibleLayers :: "mix \<Rightarrow> layer set" where
  "audibleLayers m =
     (if mix_low m > 0 then {Low} else {}) \<union>
     (if mix_mid m > 0 then {Mid} else {}) \<union>
     (if mix_high m > 0 then {High} else {})"

text \<open>
  The curve as the specification words it: five control points at the intensities
  \<open>0, 1/4, 1/2, 3/4, 1\<close> (the \<open>k\<close>-th at \<open>k/4\<close>), with the low layer at
  \<open>1, 0, 1, 0, 1\<close>, the mid layer at \<open>0, 1, 1, 1, 1\<close> and the high layer at \<open>0, 0, 0, 1, 1\<close>,
  and the rule \<open>v1 + (v2 - v1) * t\<close> between two neighbours.
\<close>

definition specControl :: "nat \<Rightarrow> mix" where
  "specControl k =
     (if k = 0 then \<lparr>mix_low = 1, mix_mid = 0, mix_high = 0\<rparr>
      else if k = 1 then \<lparr>mix_low = 0, mix_mid = 1, mix_high = 0\<rparr>
      else if k = 2 then \<lparr>mix_low = 1, mix_mid = 1, mix_high = 0\<rparr>
      else if k = 3 then \<lparr>mix_low = 0, mix_mid = 1, mix_high = 1\<rparr>
      else \<lparr>mix_low = 1, mix_mid = 1, mix_high = 1\<rparr>)"

definition specLerp :: "mix \<Rightarrow> mix \<Rightarrow> real \<Rightarrow> mix" where
  "specLerp a b t =
     \<lparr>mix_low = mix_low a + (mix_low b - mix_low a) * t,
      mix_mid = mix_mid a + (mix_mid b - mix_mid a) * t,
      mix_high = mix_high a + (mix_high b - mix_high a) * t\<rparr>"

section \<open>Host objects\<close>

type_synonym sound_id = string
type_synonym ref = nat
type_synonym timer_id = nat

datatype playlist_mode = DISABLED | SEQUENTIAL | SHUFFLE | SIMULTANEOUS

record playlist =
  pl_id :: string
  pl_mode :: playlist_mode

text \<open>The PlaylistSound document, with the two module flags and the fields the player reads.\<close>

record playlist_sound =
  sd_id :: sound_id
  sd_parent :: "playlist option"
  sd_path :: "string option"
  sd_midIntensityPath :: "string option"
  sd_lowIntensityPath :: "string option"
  sd_repeat :: bool
  sd_volume :: "real option"
  sd_isOwner :: bool
  sd_playing :: bool

text \<open>A \<open>foundry.audio.Sound\<close> object: the properties the player reads and writes.\<close>

record audio =
  au_playing :: bool
  au_currentTime :: real
  au_duration :: real
  au_volume :: real
  au_loop :: bool

record combat =
  cb_id :: string
  cb_started :: bool

text \<open>The part of the \<open>game\<close> global that the player consults: the user role, the module
  settings, the combat encounters and the ids of the existing playlists.\<close>

record game =
  gm_isGM :: bool
  gm_autoSetCombatIntensity :: bool
  gm_combatIntensity :: real
  gm_currentIntensity :: real
  gm_masterVolume :: real
  gm_combats :: "combat list"
  gm_playlists :: "string list"

text \<open>What a fade's interval callback closes over.\<close>

record fade =
  fd_startIntensity :: real
  fd_delta :: real
  fd_targetIntensity :: real
  fd_duration :: real
  fd_startTime :: real
  fd_updateUI :: bool

datatype timer = FadeTimer fade | DriftTimer

datatype host_call =
    DocUpdate sound_id bool
  | WarnMissingTracks sound_id
  | WarnDrift sound_id layer
  | ErrorPlaying sound_id

section \<open>The player\<close>

text \<open>One value of the \<open>playingSounds\<close> map (the field \<open>needsInitialSync\<close> is written once
  and never read, and is left out).\<close>

record entry =
  lowSound :: "ref option"
  midSound :: "ref option"
  highSound :: "ref option"
  sound :: playlist_sound

text \<open>
  The fields of \<open>AdaptiveAudioPlayer\<close>, followed by the host state its methods act on: the
  store of sound objects (addressed by reference, since sound objects outlive their map entry),
  the table of interval timers kept by \<open>setInterval\<close>/\<open>clearInterval\<close>, the \<open>game\<close> global and
  the calls made to the host that have no effect on the player itself: requests to update the
  \<open>playing\<close> field of a sound document, and console warnings and errors. Debug output and
  user notifications are left out. The JavaScript \<open>Map\<close> \<open>playingSounds\<close> iterates in
  insertion order and is an association list with unique keys. Timer ids handed out by the
  browser are positive, so a held id is truthy. The methods keep their names without the
  leading underscore.
\<close>

record state =
  playingSounds :: "(sound_id \<times> entry) list"
  loadingSounds :: "sound_id set"
  intensity :: real
  masterVolume :: real
  customMixEnabled :: bool
  customHighVolume :: "real option"
  customMidVolume :: "real option"
  customLowVolume :: "real option"
  preCombatIntensity :: "real option"
  userOverrideDuringCombat :: bool
  fadeInterval :: "timer_id option"
  driftMonitorInterval :: "timer_id option"
  sounds :: "ref \<Rightarrow> audio"
  nextSound :: ref
  timers :: "timer_id \<rightharpoonup> timer"
  nextTimer :: timer_id
  game :: game
  hostLog :: "host_call list"

subsection \<open>Host primitives\<close>

text \<open>Modelled from the spec: the sound-layer primitive of the host (\<open>foundry.audio.Sound\<close>) is
  not part of the repository. Section 6 of the specification gives its surface:
  \<open>play({volume, loop, offset?})\<close>, \<open>stop()\<close>, readable \<open>currentTime\<close>, \<open>duration\<close> and
  \<open>playing\<close>, readable and writable \<open>volume\<close>. \<open>stop\<close> ends playback; \<open>play\<close> starts it at the
  given offset (from the beginning when none is given) with the given volume and loop flag.\<close>

definition soundStop :: "ref \<Rightarrow> state \<Rightarrow> state" where
  "soundStop r s = s\<lparr>sounds := (sounds s)(r := (sounds s r)\<lparr>au_playing := False\<rparr>)\<rparr>"

definition soundPlay :: "ref \<Rightarrow> real \<Rightarrow> bool \<Rightarrow> real option \<Rightarrow> state \<Rightarrow> state" where
  "soundPlay r vol lp offset s =
     s\<lparr>sounds := (sounds s)(r := (sounds s r)
          \<lparr>au_playing := True,
           au_currentTime := (case offset of None \<Rightarrow> 0 | Some t \<Rightarrow> t),
           au_volume := vol,
           au_loop := lp\<rparr>)\<rparr>"

definition soundSetVolume :: "ref \<Rightarrow> real \<Rightarrow> state \<Rightarrow> state" where
  "soundSetVolume r vol s = s\<lparr>sounds := (sounds s)(r := (sounds s r)\<lparr>au_volume := vol\<rparr>)\<rparr>"

text \<open>Modelled from the spec: \<open>new foundry.audio.Sound(path)\<close> yields a fresh object that is not
  playing; \<open>load()\<close> makes its duration known.\<close>

definition newSound :: "state \<Rightarrow> ref \<times> state" where
  "newSound s =
     (nextSound s,
      s\<lparr>sounds := (sounds s)(nextSound s :=
           \<lparr>au_playing = False, au_currentTime = 0, au_duration = 0, au_volume = 1, au_loop = False\<rparr>),
        nextSound := Suc (nextSound s)\<rparr>)"

definition soundLoaded :: "ref \<Rightarrow> real \<Rightarrow> state \<Rightarrow> state" where
  "soundLoaded r d s = s\<lparr>sounds := (sounds s)(r := (sounds s r)\<lparr>au_duration := d\<rparr>)\<rparr>"

text \<open>\<open>setInterval\<close> and \<open>clearInterval\<close>.\<close>

definition setInterval :: "timer \<Rightarrow> state \<Rightarrow> timer_id \<times> state" where
  "setInterval cb s =
     (nextTimer s, s\<lparr>timers := (timers s)(nextTimer s \<mapsto> cb), nextTimer := Suc (nextTimer s)\<rparr>)"

definition clearInterval :: "timer_id \<Rightarrow> state \<Rightarrow> state" where
  "clearInterval t s = s\<lparr>timers := (timers s)(t := None)\<rparr>"

text \<open>JavaScript truthiness of a path flag: \<open>undefined\<close>, \<open>null\<close> and the empty string are falsy.\<close>

definition truthy :: "string option \<Rightarrow> bool" where
  "truthy p = (case p of None \<Rightarrow> False | Some x \<Rightarrow> x \<noteq> [])"

text \<open>The nullish default \<open>x ?? 1.0\<close>.\<close>

definition orOne :: "real option \<Rightarrow> real" where
  "orOne x = (case x of None \<Rightarrow> 1 | Some v \<Rightarrow> v)"

text \<open>\<open>Math.round\<close>: the nearest integer, halves rounded up.\<close>

definition mathRound :: "real \<Rightarrow> real" where
  "mathRound x = of_int \<lfloor>x + 1/2\<rfloor>"

subsection \<open>Applying the mix to one Track Set\<close>

text \<open>The volume computation of \<open>_applyIntensityToSound\<close>: the triple
  \<open>(lowVolume, midVolume, highVolume)\<close> before it is written to the layers.\<close>

definition mixVolumes :: "state \<Rightarrow> entry \<Rightarrow> real \<times> real \<times> real" where
  "mixVolumes s e =
     (let hasLow = (lowSound e \<noteq> None);
          hasMid = (midSound e \<noteq> None);
          hasHigh = (highSound e \<noteq> None);
          trackVolume = orOne (sd_volume (sound e));
          effectiveMasterVolume = masterVolume s * trackVolume
      in if customMixEnabled s then
           (orOne (customLowVolume s) * effectiveMasterVolume,
            orOne (customMidVolume s) * effectiveMasterVolume,
            orOne (customHighVolume s) * effectiveMasterVolume)
         else if hasLow \<and> hasMid \<and> hasHigh then
           (let m = calculateMix (intensity s)
            in (mix_low m * effectiveMasterVolume,
                mix_mid m * effectiveMasterVolume,
                mix_high m * effectiveMasterVolume))
         else if \<not> hasLow \<and> hasMid \<and> hasHigh then
           (0, (1 - intensity s) * effectiveMasterVolume, intensity s * effectiveMasterVolume)
         else if hasLow \<and> \<not> hasMid \<and> hasHigh then
           ((1 - intensity s) * effectiveMasterVolume, 0, intensity s * effectiveMasterVolume)
         else if hasLow \<and> hasMid \<and> \<not> hasHigh then
           ((1 - intensity s) * effectiveMasterVolume, intensity s * effectiveMasterVolume, 0)
         else
           (if hasLow then effectiveMasterVolume else 0,
            if hasMid then effectiveMasterVolume else 0,
            if hasHigh then effectiveMasterVolume else 0))"

definition setVolumeOpt :: "ref option \<Rightarrow> real \<Rightarrow> state \<Rightarrow> state" where
  "setVolumeOpt r vol s = (case r of None \<Rightarrow> s | Some a \<Rightarrow> soundSetVolume a vol s)"

definition applyIntensityToSound :: "sound_id \<Rightarrow> state \<Rightarrow> state" where
  "applyIntensityToSound soundId s =
     (case map_of (playingSounds s) soundId of
        None \<Rightarrow> s
      | Some e \<Rightarrow>
          (case mixVolumes s e of (lowVolume, midVolume, highVolume) \<Rightarrow>
             setVolumeOpt (highSound e) highVolume
               (setVolumeOpt (midSound e) midVolume
                 (setVolumeOpt (lowSound e) lowVolume s))))"

subsection \<open>Stopping\<close>

text \<open>\<open>_stopDriftMonitoring\<close> and \<open>_stopAdaptiveSound\<close>. The request to set the document's
  \<open>playing\<close> field to false is logged; its outcome arrives later and only produces a
  warning.\<close>

definition stopDriftMonitoring :: "state \<Rightarrow> state" where
  "stopDriftMonitoring s =
     (case driftMonitorInterval s of
        None \<Rightarrow> s
      | Some t \<Rightarrow> (clearInterval t s)\<lparr>driftMonitorInterval := None\<rparr>)"

definition stopOpt :: "ref option \<Rightarrow> state \<Rightarrow> state" where
  "stopOpt r s = (case r of None \<Rightarrow> s | Some a \<Rightarrow> soundStop a s)"

definition stopAdaptiveSound :: "sound_id \<Rightarrow> bool \<Rightarrow> state \<Rightarrow> state" where
  "stopAdaptiveSound soundId skipUpdate s =
     (case map_of (playingSounds s) soundId of
        None \<Rightarrow> s
      | Some e \<Rightarrow>
          (let s1 = stopOpt (highSound e) (stopOpt (midSound e) (stopOpt (lowSound e) s));
               s2 = s1\<lparr>playingSounds := AList.delete soundId (playingSounds s1)\<rparr>;
               doc = sound e;
               s3 = (if \<not> skipUpdate \<and> sd_isOwner doc \<and> sd_playing doc \<and>
                        (case sd_parent doc of None \<Rightarrow> False
                         | Some p \<Rightarrow> pl_id p \<in> set (gm_playlists (game s2)))
                     then s2\<lparr>hostLog := hostLog s2 @ [DocUpdate (sd_id doc) False]\<rparr>
                     else s2)
           in if playingSounds s3 = [] then stopDriftMonitoring s3 else s3))"

subsection \<open>Intensity and fades\<close>

definition setGlobalIntensity :: "real \<Rightarrow> bool \<Rightarrow> state \<Rightarrow> state" where
  "setGlobalIntensity newIntensity fromSync s =
     (let s1 = s\<lparr>intensity := max 0 (min 1 newIntensity)\<rparr>;
          s2 = (if \<not> fromSync \<and> preCombatIntensity s1 \<noteq> None
                then s1\<lparr>userOverrideDuringCombat := True\<rparr> else s1);
          s3 = foldl (\<lambda>st soundId. applyIntensityToSound soundId st) s2 (map fst (playingSounds s2))
      in if \<not> fromSync \<and> gm_isGM (game s3)
         then s3\<lparr>game := (game s3)\<lparr>gm_currentIntensity := mathRound (intensity s3 * 100)\<rparr>\<rparr>
         else s3)"

text \<open>\<open>fadeTo\<close>; \<open>now\<close> is the value of \<open>Date.now()\<close> at the call.\<close>

definition fadeTo :: "real \<Rightarrow> real \<Rightarrow> bool \<Rightarrow> real \<Rightarrow> state \<Rightarrow> state" where
  "fadeTo targetIntensity duration updateUI now s =
     (let s1 = (case fadeInterval s of
                  None \<Rightarrow> s
                | Some t \<Rightarrow> (clearInterval t s)\<lparr>fadeInterval := None\<rparr>);
          startIntensity = intensity s1;
          delta = targetIntensity - startIntensity;
          cb = FadeTimer \<lparr>fd_startIntensity = startIntensity, fd_delta = delta,
                 fd_targetIntensity = targetIntensity, fd_duration = duration,
                 fd_startTime = now, fd_updateUI = updateUI\<rparr>
      in case setInterval cb s1 of (t, s2) \<Rightarrow> s2\<lparr>fadeInterval := Some t\<rparr>)"

text \<open>
  One run of the fade's interval callback at time \<open>now\<close>. The refresh of the sliders in the
  document (when \<open>updateUI\<close> is set) does not touch the player and is left out. The callers in
  the repository fade over 2000 ms; a duration of zero, where JavaScript divides by zero, is
  outside this model.
\<close>

definition fadeStep :: "fade \<Rightarrow> real \<Rightarrow> state \<Rightarrow> state" where
  "fadeStep f now s =
     (let elapsed = now - fd_startTime f;
          progress = min (elapsed / fd_duration f) 1;
          eased = (if progress < 0.5 then 2 * progress * progress
                   else 1 - (- 2 * progress + 2)\<^sup>2 / 2);
          newIntensity = fd_startIntensity f + fd_delta f * eased;
          s1 = setGlobalIntensity newIntensity True s
      in if progress \<ge> 1 then
           (let s2 = (case fadeInterval s1 of None \<Rightarrow> s1 | Some t \<Rightarrow> clearInterval t s1);
                s3 = s2\<lparr>fadeInterval := None\<rparr>
            in if gm_isGM (game s3)
               then s3\<lparr>game := (game s3)
                      \<lparr>gm_currentIntensity := mathRound (fd_targetIntensity f * 100)\<rparr>\<rparr>
               else s3)
         else s1)"

definition setMasterVolume :: "real \<Rightarrow> state \<Rightarrow> state" where
  "setMasterVolume vol s =
     (let s1 = s\<lparr>masterVolume := max 0 (min 1 vol)\<rparr>;
          s2 = s1\<lparr>game := (game s1)\<lparr>gm_masterVolume := masterVolume s1 * 100\<rparr>\<rparr>
      in setGlobalIntensity (intensity s2) False s2)"

subsection \<open>Drift monitor\<close>

definition startDriftMonitoring :: "state \<Rightarrow> state" where
  "startDriftMonitoring s =
     (case setInterval DriftTimer (stopDriftMonitoring s) of
        (t, s1) \<Rightarrow> s1\<lparr>driftMonitorInterval := Some t\<rparr>)"

text \<open>The primary layer \<open>lowSound || midSound || highSound\<close>.\<close>

definition primarySound :: "entry \<Rightarrow> ref option" where
  "primarySound e =
     (case lowSound e of Some r \<Rightarrow> Some r
      | None \<Rightarrow> (case midSound e of Some r \<Rightarrow> Some r | None \<Rightarrow> highSound e))"

text \<open>The closure \<open>checkDrift\<close> of one loop iteration; \<open>primary\<close> and \<open>baseTime\<close> are the
  variables it captures.\<close>

definition checkDrift ::
  "sound_id \<Rightarrow> entry \<Rightarrow> ref \<Rightarrow> real \<Rightarrow> ref option \<Rightarrow> layer \<Rightarrow> state \<Rightarrow> state" where
  "checkDrift soundId e primary baseTime secondary label s =
     (case secondary of
        None \<Rightarrow> s
      | Some r \<Rightarrow>
          if \<not> au_playing (sounds s r) then s
          else
            (let drift = \<bar>au_currentTime (sounds s r) - baseTime\<bar>
             in if drift > 0.1 then
                  (let s1 = s\<lparr>hostLog := hostLog s @ [WarnDrift soundId label]\<rparr>;
                       s2 = soundStop r s1;
                       offset = au_currentTime (sounds s2 primary);
                       s3 = soundPlay r 0 (sd_repeat (sound e)) (Some offset) s2
                   in applyIntensityToSound soundId s3)
                else s))"

text \<open>The body of the monitor's loop for one key of \<open>playingSounds\<close>. The loop walks the live
  map, so an entry removed earlier in the same tick is not visited.\<close>

definition driftCheckEntry :: "sound_id \<Rightarrow> state \<Rightarrow> state" where
  "driftCheckEntry soundId s =
     (case map_of (playingSounds s) soundId of
        None \<Rightarrow> s
      | Some e \<Rightarrow>
          (case primarySound e of
             None \<Rightarrow> s
           | Some p \<Rightarrow>
               if \<not> au_playing (sounds s p) then s
               else if \<not> sd_repeat (sound e) \<and> au_duration (sounds s p) > 0 \<and>
                       au_currentTime (sounds s p) \<ge> au_duration (sounds s p) - 0.2
               then stopAdaptiveSound soundId False s
               else
                 (let baseTime = au_currentTime (sounds s p);
                      s1 = (if Some p \<noteq> highSound e
                            then checkDrift soundId e p baseTime (highSound e) High s else s);
                      s2 = (if Some p \<noteq> midSound e
                            then checkDrift soundId e p baseTime (midSound e) Mid s1 else s1);
                      s3 = (if Some p \<noteq> lowSound e
                            then checkDrift soundId e p baseTime (lowSound e) Low s2 else s2)
                  in s3)))"

text \<open>One run of the monitor's interval callback.\<close>

definition driftTick :: "state \<Rightarrow> state" where
  "driftTick s =
     (if length (playingSounds s) = 0 then stopDriftMonitoring s
      else foldl (\<lambda>st soundId. driftCheckEntry soundId st) s (map fst (playingSounds s)))"

text \<open>The host fires a scheduled timer: it runs the callback registered under that id, if the
  timer has not been cleared.\<close>

definition timerFire :: "timer_id \<Rightarrow> real \<Rightarrow> state \<Rightarrow> state" where
  "timerFire t now s =
     (case timers s t of
        None \<Rightarrow> s
      | Some (FadeTimer f) \<Rightarrow> fadeStep f now s
      | Some DriftTimer \<Rightarrow> driftTick s)"

subsection \<open>Starting\<close>

text \<open>What the host reports for one start request: whether all layers loaded, the durations of
  the loaded layers, and whether the document update succeeded.\<close>

record host_outcome =
  ho_loaded :: bool
  ho_duration :: "layer \<Rightarrow> real"
  ho_updated :: bool

definition newSoundIf :: "bool \<Rightarrow> state \<Rightarrow> ref option \<times> state" where
  "newSoundIf present s = (if present then (case newSound s of (r, s1) \<Rightarrow> (Some r, s1)) else (None, s))"

definition loadedOpt :: "ref option \<Rightarrow> real \<Rightarrow> state \<Rightarrow> state" where
  "loadedOpt r d s = (case r of None \<Rightarrow> s | Some a \<Rightarrow> soundLoaded a d s)"

definition playOpt :: "ref option \<Rightarrow> real \<Rightarrow> bool \<Rightarrow> state \<Rightarrow> state" where
  "playOpt r vol lp s = (case r of None \<Rightarrow> s | Some a \<Rightarrow> soundPlay a vol lp None s)"

text \<open>The \<open>try\<close> block of \<open>_playAdaptiveSound\<close>, with its \<open>catch\<close>. The two \<open>await\<close>s are taken
  in one step each with the host's outcome.\<close>

definition tryPlay :: "host_outcome \<Rightarrow> playlist_sound \<Rightarrow> state \<Rightarrow> state" where
  "tryPlay out doc s =
     (case newSoundIf (truthy (sd_path doc)) s of (highS, s1) \<Rightarrow>
      case newSoundIf (truthy (sd_midIntensityPath doc)) s1 of (midS, s2) \<Rightarrow>
      case newSoundIf (truthy (sd_lowIntensityPath doc)) s2 of (lowS, s3) \<Rightarrow>
        if \<not> ho_loaded out then s3\<lparr>hostLog := hostLog s3 @ [ErrorPlaying (sd_id doc)]\<rparr>
        else
          (let s4 = loadedOpt lowS (ho_duration out Low)
                      (loadedOpt midS (ho_duration out Mid)
                        (loadedOpt highS (ho_duration out High) s3));
               s5 = s4\<lparr>playingSounds := AList.update (sd_id doc)
                        \<lparr>lowSound = lowS, midSound = midS, highSound = highS, sound = doc\<rparr>
                        (playingSounds s4)\<rparr>;
               s6 = playOpt lowS 0 (sd_repeat doc)
                      (playOpt midS 0 (sd_repeat doc)
                        (playOpt highS 0 (sd_repeat doc) s5));
               s7 = applyIntensityToSound (sd_id doc) s6
           in if sd_isOwner doc \<and> \<not> ho_updated out
              then s7\<lparr>hostLog := hostLog s7 @ [ErrorPlaying (sd_id doc)]\<rparr>
              else
                (let s8 = (if sd_isOwner doc
                           then s7\<lparr>hostLog := hostLog s7 @ [DocUpdate (sd_id doc) True]\<rparr>
                           else s7)
                 in if driftMonitorInterval s8 = None then startDriftMonitoring s8 else s8)))"

definition soundsToStop :: "playlist \<Rightarrow> playlist_sound \<Rightarrow> state \<Rightarrow> sound_id list" where
  "soundsToStop pl doc s =
     map fst (filter (\<lambda>(otherId, e).
        map_option pl_id (sd_parent (sound e)) = Some (pl_id pl) \<and> otherId \<noteq> sd_id doc)
        (playingSounds s))"

definition playAdaptiveSound :: "host_outcome \<Rightarrow> playlist_sound \<Rightarrow> state \<Rightarrow> state" where
  "playAdaptiveSound out doc s =
     (if sd_id doc \<in> loadingSounds s then s
      else
        (let s1 = (case sd_parent doc of
                     None \<Rightarrow> s
                   | Some pl \<Rightarrow>
                       if pl_mode pl \<noteq> SIMULTANEOUS
                       then foldl (\<lambda>st i. stopAdaptiveSound i False st) s (soundsToStop pl doc s)
                       else s);
             midPath = sd_midIntensityPath doc;
             lowPath = sd_lowIntensityPath doc
         in if \<not> truthy midPath \<and> \<not> truthy lowPath
            then s1\<lparr>hostLog := hostLog s1 @ [WarnMissingTracks (sd_id doc)]\<rparr>
            else
              (let s2 = (if map_of (playingSounds s1) (sd_id doc) \<noteq> None
                         then stopAdaptiveSound (sd_id doc) False s1 else s1);
                   s3 = s2\<lparr>loadingSounds := insert (sd_id doc) (loadingSounds s2)\<rparr>;
                   s4 = tryPlay out doc s3
               in s4\<lparr>loadingSounds := loadingSounds s4 - {sd_id doc}\<rparr>)))"

subsection \<open>Combat Intensity Policy\<close>


definition otherActiveCombats :: "combat \<Rightarrow> state \<Rightarrow> combat list" where
  "otherActiveCombats c s =
     filter (\<lambda>c'. cb_started c' \<and> cb_id c' \<noteq> cb_id c) (gm_combats (game s))"

definition deleteCombat :: "combat \<Rightarrow> real \<Rightarrow> state \<Rightarrow> state" where
  "deleteCombat c now s =
     (if \<not> gm_autoSetCombatIntensity (game s) then s
      else
        if length (otherActiveCombats c s) > 0 then s
        else
          (let s1 = (case preCombatIntensity s of
                       Some p \<Rightarrow>
                         if \<not> userOverrideDuringCombat s then fadeTo p 2000 True now s else s
                     | None \<Rightarrow> s)
           in s1\<lparr>preCombatIntensity := None, userOverrideDuringCombat := False\<rparr>))"


section \<open>Auxiliary notions\<close>

text \<open>The sound objects of a Track Set.\<close>

definition entryRefs :: "entry \<Rightarrow> ref set" where
  "entryRefs e = set_option (lowSound e) \<union> set_option (midSound e) \<union> set_option (highSound e)"

text \<open>Two states that agree on everything but the store of sound objects.\<close>

definition sameButSounds :: "state \<Rightarrow> state \<Rightarrow> bool" where
  "sameButSounds s s' = (s' = s\<lparr>sounds := sounds s'\<rparr>)"

text \<open>The three \<open>stop()\<close> calls of \<open>_stopAdaptiveSound\<close>.\<close>

definition stopLayers :: "entry \<Rightarrow> state \<Rightarrow> state" where
  "stopLayers e s = stopOpt (highSound e) (stopOpt (midSound e) (stopOpt (lowSound e) s))"



text \<open>The volume that \<open>_applyIntensityToSound\<close> leaves on a sound object of a Track Set: the
  assignments run low, mid, high, so the last matching layer decides.\<close>

definition mixVolumeAt :: "state \<Rightarrow> entry \<Rightarrow> ref \<Rightarrow> real" where
  "mixVolumeAt s e x =
     (case mixVolumes s e of (lowVolume, midVolume, highVolume) \<Rightarrow>
        if highSound e = Some x then highVolume
        else if midSound e = Some x then midVolume
        else lowVolume)"

text \<open>The two tests of the drift monitor: a layer that is playing more than 0.1 s away from
  the base time, and a primary layer at the end of a track that does not repeat.\<close>

definition drifted :: "real \<Rightarrow> audio \<Rightarrow> bool" where
  "drifted baseTime a = (au_playing a \<and> \<bar>au_currentTime a - baseTime\<bar> > 0.1)"

definition trackEnded :: "entry \<Rightarrow> audio \<Rightarrow> bool" where
  "trackEnded e a =
     (\<not> sd_repeat (sound e) \<and> au_duration a > 0 \<and> au_currentTime a \<ge> au_duration a - 0.2)"

text \<open>The checks of one loop iteration, in the order the monitor makes them.\<close>

definition driftChecks :: "entry \<Rightarrow> (ref option \<times> layer) list" where
  "driftChecks e = [(highSound e, High), (midSound e, Mid), (lowSound e, Low)]"

definition checkStep ::
  "sound_id \<Rightarrow> entry \<Rightarrow> ref \<Rightarrow> real \<Rightarrow> ref option \<times> layer \<Rightarrow> state \<Rightarrow> state" where
  "checkStep soundId e p baseTime c s =
     (if Some p \<noteq> fst c then checkDrift soundId e p baseTime (fst c) (snd c) s else s)"

definition runChecks ::
  "sound_id \<Rightarrow> entry \<Rightarrow> ref \<Rightarrow> real \<Rightarrow> (ref option \<times> layer) list \<Rightarrow> state \<Rightarrow> state" where
  "runChecks soundId e p baseTime cs s =
     foldl (\<lambda>st c. checkStep soundId e p baseTime c st) s cs"

text \<open>A sound object that a run of checks resynchronises: it is checked, is not the primary,
  and has drifted.\<close>

definition resyncs :: "real \<Rightarrow> ref \<Rightarrow> (ref option \<times> layer) list \<Rightarrow> state \<Rightarrow> ref \<Rightarrow> bool" where
  "resyncs baseTime p cs s x =
     (x \<noteq> p \<and> Some x \<in> fst ` set cs \<and> drifted baseTime (sounds s x))"

text \<open>The fields of the state that decide the mix.\<close>

definition sameMix :: "state \<Rightarrow> state \<Rightarrow> bool" where
  "sameMix s s' =
     (customMixEnabled s' = customMixEnabled s \<and> intensity s' = intensity s \<and>
      masterVolume s' = masterVolume s \<and> customLowVolume s' = customLowVolume s \<and>
      customMidVolume s' = customMidVolume s \<and> customHighVolume s' = customHighVolume s)"

text \<open>A step that leaves the held fade timer alone: it may clear timers, and it may schedule
  drift-monitor timers under fresh ids, and nothing else happens to the timer table.\<close>

definition driftOnly :: "state \<Rightarrow> state \<Rightarrow> bool" where
  "driftOnly s s' =
     (fadeInterval s' = fadeInterval s \<and> nextTimer s \<le> nextTimer s' \<and>
      (\<forall>t. timers s' t = timers s t \<or> timers s' t = None \<or>
           (timers s' t = Some DriftTimer \<and> nextTimer s \<le> t \<and> t < nextTimer s')))"





section \<open>A concrete session\<close>

text \<open>
  A GM client with one sequential playlist \<open>P\<close>. Sound \<open>A\<close> has all three layers and is playing
  on a loop: the low layer (object 0) and the mid layer (object 1) are 10 s in, the high layer
  (object 2) has drifted to 10.15 s. The intensity is 0.5, so low and mid are at full volume and
  high is silent. Sound \<open>B\<close> of the same playlist has no mid and no low path.
\<close>

definition exampleGame :: game where
  "exampleGame =
     \<lparr>gm_isGM = True, gm_autoSetCombatIntensity = True, gm_combatIntensity = 100,
      gm_currentIntensity = 50, gm_masterVolume = 100, gm_combats = [],
      gm_playlists = [''P'']\<rparr>"

definition examplePlaylist :: playlist where
  "examplePlaylist = \<lparr>pl_id = ''P'', pl_mode = SEQUENTIAL\<rparr>"

definition soundA :: playlist_sound where
  "soundA =
     \<lparr>sd_id = ''A'', sd_parent = Some examplePlaylist, sd_path = Some ''high.ogg'',
      sd_midIntensityPath = Some ''mid.ogg'', sd_lowIntensityPath = Some ''low.ogg'',
      sd_repeat = True, sd_volume = Some 1, sd_isOwner = True, sd_playing = True\<rparr>"

definition soundB :: playlist_sound where
  "soundB =
     \<lparr>sd_id = ''B'', sd_parent = Some examplePlaylist, sd_path = Some ''b.ogg'',
      sd_midIntensityPath = None, sd_lowIntensityPath = None,
      sd_repeat = True, sd_volume = Some 1, sd_isOwner = True, sd_playing = False\<rparr>"

definition entryA :: entry where
  "entryA = \<lparr>lowSound = Some 0, midSound = Some 1, highSound = Some 2, sound = soundA\<rparr>"

definition playingAt :: "real \<Rightarrow> real \<Rightarrow> audio" where
  "playingAt t vol =
     \<lparr>au_playing = True, au_currentTime = t, au_duration = 60, au_volume = vol, au_loop = True\<rparr>"

definition idleAudio :: audio where
  "idleAudio =
     \<lparr>au_playing = False, au_currentTime = 0, au_duration = 0, au_volume = 1, au_loop = False\<rparr>"

definition exampleOutcome :: host_outcome where
  "exampleOutcome = \<lparr>ho_loaded = True, ho_duration = (\<lambda>_. 60), ho_updated = True\<rparr>"

definition combat1 :: combat where
  "combat1 = \<lparr>cb_id = ''c1'', cb_started = True\<rparr>"

definition combat2 :: combat where
  "combat2 = \<lparr>cb_id = ''c2'', cb_started = True\<rparr>"

definition exampleState :: state where
  "exampleState =
     \<lparr>playingSounds = [(''A'', entryA)], loadingSounds = {}, intensity = 0.5, masterVolume = 1,
      customMixEnabled = False, customHighVolume = Some 1, customMidVolume = Some 0.3,
      customLowVolume = Some 0, preCombatIntensity = None, userOverrideDuringCombat = False,
      fadeInterval = None, driftMonitorInterval = Some 1,
      sounds = (\<lambda>_. idleAudio)(0 := playingAt 10 1, 1 := playingAt 10 1, 2 := playingAt 10.15 0),
      nextSound = 3, timers = [1 \<mapsto> DriftTimer], nextTimer = 2, game = exampleGame,
      hostLog = []\<rparr>"

text \<open>The same session with sound \<open>A\<close> not repeating and 0.1 s before its end, the high layer
  0.15 s behind.\<close>

definition endingState :: state where
  "endingState =
     exampleState
       \<lparr>playingSounds := [(''A'', entryA\<lparr>sound := soundA\<lparr>sd_repeat := False\<rparr>\<rparr>)],
        sounds := (\<lambda>_. idleAudio)
          (0 := playingAt 59.9 1, 1 := playingAt 59.9 1, 2 := playingAt 59.75 0)\<rparr>"

section \<open>The mix curve\<close>

text \<open>Closed forms of the three components.\<close>

lemma low_closed:
  "mix_low (calculateMix v) = (if 0 \<le> v \<and> v \<le> 1 then min \<bar>1 - 4 * v\<bar> \<bar>3 - 4 * v\<bar> else 1)"
  by (simp add: calculateMix_def pnt_def Let_def)

lemma mid_closed:
  "mix_mid (calculateMix v) = (if 0 \<le> v \<and> v \<le> 1 then min 1 (4 * v) else 1)"
  by (simp add: calculateMix_def pnt_def Let_def)

lemma high_closed:
  "mix_high (calculateMix v) = (if 0 \<le> v \<and> v \<le> 1 then max 0 (min 1 (4 * v - 2)) else 1)"
  by (simp add: calculateMix_def pnt_def Let_def)

text \<open>Left of the first point, and right of the last, no interval matches.\<close>

lemma interp_falls_through:
  "val < pt_p p1 \<Longrightarrow> sorted (map pt_p (p1 # ps)) \<Longrightarrow> interp val p1 ps = pt_v (last (p1 # ps))"
  by (induction ps arbitrary: p1) auto

lemma interp_beyond:
  "\<forall>q \<in> set (p1 # ps). pt_p q < val \<Longrightarrow> interp val p1 ps = pt_v (last (p1 # ps))"
  by (induction ps arbitrary: p1) auto

lemma calculateMix_low_continuous: "continuous_on {0..1} (\<lambda>v. mix_low (calculateMix v))"
proof -
  have "continuous_on {0..1} (\<lambda>v::real. min \<bar>1 - 4 * v\<bar> \<bar>3 - 4 * v\<bar>)"
    by (intro continuous_intros)
  moreover have "continuous_on {0..1} (\<lambda>v. mix_low (calculateMix v)) \<longleftrightarrow>
                 continuous_on {0..1} (\<lambda>v::real. min \<bar>1 - 4 * v\<bar> \<bar>3 - 4 * v\<bar>)"
    by (rule continuous_on_cong) (simp_all add: low_closed)
  ultimately show ?thesis by simp
qed

lemma calculateMix_mid_continuous: "continuous_on {0..1} (\<lambda>v. mix_mid (calculateMix v))"
proof -
  have "continuous_on {0..1} (\<lambda>v::real. min 1 (4 * v))"
    by (intro continuous_intros)
  moreover have "continuous_on {0..1} (\<lambda>v. mix_mid (calculateMix v)) \<longleftrightarrow>
                 continuous_on {0..1} (\<lambda>v::real. min 1 (4 * v))"
    by (rule continuous_on_cong) (simp_all add: mid_closed)
  ultimately show ?thesis by simp
qed

lemma calculateMix_high_continuous: "continuous_on {0..1} (\<lambda>v. mix_high (calculateMix v))"
proof -
  have "continuous_on {0..1} (\<lambda>v::real. max 0 (min 1 (4 * v - 2)))"
    by (intro continuous_intros)
  moreover have "continuous_on {0..1} (\<lambda>v. mix_high (calculateMix v)) \<longleftrightarrow>
                 continuous_on {0..1} (\<lambda>v::real. max 0 (min 1 (4 * v - 2)))"
    by (rule continuous_on_cong) (simp_all add: high_closed)
  ultimately show ?thesis by simp
qed

lemma calculateMix_segments:
  "0 \<le> v \<Longrightarrow> v \<le> 1/4 \<Longrightarrow>
     calculateMix v = \<lparr>mix_low = 1 - 4 * v, mix_mid = 4 * v, mix_high = 0\<rparr>"
  "1/4 \<le> v \<Longrightarrow> v \<le> 1/2 \<Longrightarrow>
     calculateMix v = \<lparr>mix_low = 4 * v - 1, mix_mid = 1, mix_high = 0\<rparr>"
  "1/2 \<le> v \<Longrightarrow> v \<le> 3/4 \<Longrightarrow>
     calculateMix v = \<lparr>mix_low = 3 - 4 * v, mix_mid = 1, mix_high = 4 * v - 2\<rparr>"
  "3/4 \<le> v \<Longrightarrow> v \<le> 1 \<Longrightarrow>
     calculateMix v = \<lparr>mix_low = 4 * v - 3, mix_mid = 1, mix_high = 1\<rparr>"
  by (auto simp add: calculateMix_def pnt_def Let_def field_simps)

lemma calculateMix_refines_spec:
  assumes "k < 4" "real k / 4 \<le> v" "v \<le> real (Suc k) / 4"
  shows "calculateMix v = specLerp (specControl k) (specControl (Suc k)) (4 * v - real k)"
proof -
  from assms(1) consider "k = 0" | "k = 1" | "k = 2" | "k = 3" by linarith
  then show ?thesis
  proof cases
    case 1 with assms show ?thesis
      by (simp add: calculateMix_segments(1) specLerp_def specControl_def)
  next
    case 2 with assms show ?thesis
      by (simp add: calculateMix_segments(2) specLerp_def specControl_def)
  next
    case 3 with assms show ?thesis
      by (simp add: calculateMix_segments(3) specLerp_def specControl_def)
  next
    case 4 with assms show ?thesis
      by (simp add: calculateMix_segments(4) specLerp_def specControl_def)
  qed
qed

text \<open>
  Claim C3. With three layers present the mix is the piecewise-linear interpolation through the
  five control points: on each quarter \<open>[k/4, (k+1)/4]\<close> it is the linear interpolation between
  the \<open>k\<close>-th and the next control point of the specification, each component is continuous
  on \<open>[0, 1]\<close>, and at the intensities 0, 0.25, 0.5, 0.75 and 1 the layers with a positive
  volume are Low; Mid; Low and Mid; Mid and High; all three.
\<close>

theorem calculateMix_five_stage:
  "(\<forall>k<4. \<forall>v. real k / 4 \<le> v \<and> v \<le> real (Suc k) / 4 \<longrightarrow>
       calculateMix v = specLerp (specControl k) (specControl (Suc k)) (4 * v - real k)) \<and>
   continuous_on {0..1} (\<lambda>v. mix_low (calculateMix v)) \<and>
   continuous_on {0..1} (\<lambda>v. mix_mid (calculateMix v)) \<and>
   continuous_on {0..1} (\<lambda>v. mix_high (calculateMix v)) \<and>
   audibleLayers (calculateMix 0) = {Low} \<and>
   audibleLayers (calculateMix 0.25) = {Mid} \<and>
   audibleLayers (calculateMix 0.5) = {Low, Mid} \<and>
   audibleLayers (calculateMix 0.75) = {Mid, High} \<and>
   audibleLayers (calculateMix 1.0) = {Low, Mid, High}"
proof -
  have "audibleLayers (calculateMix 0) = {Low}"
       "audibleLayers (calculateMix 0.25) = {Mid}"
       "audibleLayers (calculateMix 0.5) = {Low, Mid}"
       "audibleLayers (calculateMix 0.75) = {Mid, High}"
       "audibleLayers (calculateMix 1.0) = {Low, Mid, High}"
    by (simp_all add: audibleLayers_def low_closed mid_closed high_closed insert_commute)
  moreover have "\<forall>k<4. \<forall>v. real k / 4 \<le> v \<and> v \<le> real (Suc k) / 4 \<longrightarrow>
       calculateMix v = specLerp (specControl k) (specControl (Suc k)) (4 * v - real k)"
    using calculateMix_refines_spec by blast
  ultimately show ?thesis
    using calculateMix_low_continuous calculateMix_mid_continuous calculateMix_high_continuous
    by (intro conjI)
qed

theorem calculateMix_five_stage_witness:
  "calculateMix 0.6 = \<lparr>mix_low = 0.6, mix_mid = 1, mix_high = 0.4\<rparr> \<and>
   audibleLayers (calculateMix 0.5) = {Low, Mid}"
proof -
  have seg: "\<forall>k<4. \<forall>v. real k / 4 \<le> v \<and> v \<le> real (Suc k) / 4 \<longrightarrow>
       calculateMix v = specLerp (specControl k) (specControl (Suc k)) (4 * v - real k)"
    using calculateMix_five_stage by (rule conjunct1)
  have "calculateMix 0.6 = specLerp (specControl 2) (specControl (Suc 2)) (4 * 0.6 - real 2)"
    using seg [rule_format, of 2 "0.6"] by simp
  moreover have "audibleLayers (calculateMix 0.5) = {Low, Mid}"
    using calculateMix_five_stage by (elim conjE) assumption
  ultimately show ?thesis
    by (simp add: specLerp_def specControl_def)
qed

text \<open>
  Claim C8. For every input, also outside \<open>[0, 1]\<close>, each component of the mix lies in
  \<open>[0, 1]\<close>.
\<close>

theorem calculateMix_bounds:
  "0 \<le> mix_low (calculateMix v) \<and> mix_low (calculateMix v) \<le> 1 \<and>
   0 \<le> mix_mid (calculateMix v) \<and> mix_mid (calculateMix v) \<le> 1 \<and>
   0 \<le> mix_high (calculateMix v) \<and> mix_high (calculateMix v) \<le> 1"
  unfolding low_closed mid_closed high_closed by (auto simp: min_def max_def abs_if)

text \<open>
  Claim C10. For a negative input no interval of the curve matches, the loop falls through to
  the last control point, and the mix is \<open>(1, 1, 1)\<close>: the mix of intensity 1 and not the mix
  \<open>(1, 0, 0)\<close> of intensity 0.
\<close>

theorem calculateMix_negative:
  "v < 0 \<Longrightarrow>
     calculateMix v = \<lparr>mix_low = 1, mix_mid = 1, mix_high = 1\<rparr> \<and>
     calculateMix v = calculateMix 1 \<and>
     calculateMix 0 = \<lparr>mix_low = 1, mix_mid = 0, mix_high = 0\<rparr> \<and>
     calculateMix v \<noteq> calculateMix 0"
  by (simp add: calculateMix_def pnt_def Let_def)

theorem calculateMix_negative_witness:
  "(-1::real) < 0 \<and> calculateMix (-1) = \<lparr>mix_low = 1, mix_mid = 1, mix_high = 1\<rparr> \<and>
   calculateMix (-1) \<noteq> calculateMix 0"
  using calculateMix_negative [of "-1"] by simp

section \<open>Frame lemmas\<close>

lemma sameButSounds_refl: "sameButSounds s s"
  by (simp add: sameButSounds_def)

lemma sameButSoundsI: "s' = s\<lparr>sounds := h\<rparr> \<Longrightarrow> sameButSounds s s'"
  by (simp add: sameButSounds_def)

lemma sameButSounds_trans:
  assumes "sameButSounds s t" "sameButSounds t u"
  shows "sameButSounds s u"
proof -
  from assms(1) have a: "t = s\<lparr>sounds := sounds t\<rparr>" by (simp only: sameButSounds_def)
  from assms(2) have b: "u = t\<lparr>sounds := sounds u\<rparr>" by (simp only: sameButSounds_def)
  have "u = (s\<lparr>sounds := sounds t\<rparr>)\<lparr>sounds := sounds u\<rparr>"
    by (subst b, subst a) (rule refl)
  then have "u = s\<lparr>sounds := sounds u\<rparr>" by simp
  then show ?thesis by (rule sameButSoundsI)
qed

lemma setVolumeOpt_same: "sameButSounds s (setVolumeOpt r v s)"
  by (cases r) (simp_all add: sameButSounds_def setVolumeOpt_def soundSetVolume_def)

lemma applyIntensityToSound_same: "sameButSounds s (applyIntensityToSound i s)"
proof (cases "map_of (playingSounds s) i")
  case None
  then show ?thesis by (simp add: applyIntensityToSound_def sameButSounds_refl)
next
  case (Some e)
  obtain l m h where mv: "mixVolumes s e = (l, m, h)" by (cases "mixVolumes s e")
  have "applyIntensityToSound i s =
          setVolumeOpt (highSound e) h (setVolumeOpt (midSound e) m (setVolumeOpt (lowSound e) l s))"
    by (simp add: applyIntensityToSound_def Some mv)
  then show ?thesis
    by (simp only:)
       (rule sameButSounds_trans [OF sameButSounds_trans [OF setVolumeOpt_same setVolumeOpt_same]
          setVolumeOpt_same])
qed

lemma applyAll_same:
  "sameButSounds s (foldl (\<lambda>st i. applyIntensityToSound i st) s ids)"
proof (induction ids arbitrary: s)
  case Nil
  show ?case by (simp add: sameButSounds_refl)
next
  case (Cons i ids)
  show ?case
    using sameButSounds_trans [OF applyIntensityToSound_same Cons.IH] by simp
qed

lemma sameButSoundsD:
  assumes "sameButSounds s s'"
  shows "playingSounds s' = playingSounds s" "loadingSounds s' = loadingSounds s"
    "intensity s' = intensity s" "masterVolume s' = masterVolume s"
    "customMixEnabled s' = customMixEnabled s" "customHighVolume s' = customHighVolume s"
    "customMidVolume s' = customMidVolume s" "customLowVolume s' = customLowVolume s"
    "preCombatIntensity s' = preCombatIntensity s"
    "userOverrideDuringCombat s' = userOverrideDuringCombat s"
    "fadeInterval s' = fadeInterval s" "driftMonitorInterval s' = driftMonitorInterval s"
    "nextSound s' = nextSound s" "timers s' = timers s" "nextTimer s' = nextTimer s"
    "game s' = game s" "hostLog s' = hostLog s"
proof -
  from assms have a: "s' = s\<lparr>sounds := sounds s'\<rparr>" by (simp only: sameButSounds_def)
  show "playingSounds s' = playingSounds s" by (subst a) simp
  show "loadingSounds s' = loadingSounds s" by (subst a) simp
  show "intensity s' = intensity s" by (subst a) simp
  show "masterVolume s' = masterVolume s" by (subst a) simp
  show "customMixEnabled s' = customMixEnabled s" by (subst a) simp
  show "customHighVolume s' = customHighVolume s" by (subst a) simp
  show "customMidVolume s' = customMidVolume s" by (subst a) simp
  show "customLowVolume s' = customLowVolume s" by (subst a) simp
  show "preCombatIntensity s' = preCombatIntensity s" by (subst a) simp
  show "userOverrideDuringCombat s' = userOverrideDuringCombat s" by (subst a) simp
  show "fadeInterval s' = fadeInterval s" by (subst a) simp
  show "driftMonitorInterval s' = driftMonitorInterval s" by (subst a) simp
  show "nextSound s' = nextSound s" by (subst a) simp
  show "timers s' = timers s" by (subst a) simp
  show "nextTimer s' = nextTimer s" by (subst a) simp
  show "game s' = game s" by (subst a) simp
  show "hostLog s' = hostLog s" by (subst a) simp
qed

lemmas applyIntensityToSound_frame = sameButSoundsD [OF applyIntensityToSound_same]
lemmas applyAll_frame = sameButSoundsD [OF applyAll_same]

section \<open>Volume application\<close>

lemma mixVolumes_cong:
  "customMixEnabled s' = customMixEnabled s \<Longrightarrow> intensity s' = intensity s \<Longrightarrow>
   masterVolume s' = masterVolume s \<Longrightarrow> customLowVolume s' = customLowVolume s \<Longrightarrow>
   customMidVolume s' = customMidVolume s \<Longrightarrow> customHighVolume s' = customHighVolume s \<Longrightarrow>
   mixVolumes s' e = mixVolumes s e"
  by (simp add: mixVolumes_def Let_def)

lemma mixVolumes_custom:
  "customMixEnabled s \<Longrightarrow>
   mixVolumes s e =
     (orOne (customLowVolume s) * (masterVolume s * orOne (sd_volume (sound e))),
      orOne (customMidVolume s) * (masterVolume s * orOne (sd_volume (sound e))),
      orOne (customHighVolume s) * (masterVolume s * orOne (sd_volume (sound e))))"
  by (simp add: mixVolumes_def Let_def)

lemma applyIntensityToSound_custom_intensity:
  "customMixEnabled s \<Longrightarrow>
   applyIntensityToSound i (s\<lparr>intensity := a\<rparr>) = (applyIntensityToSound i s)\<lparr>intensity := a\<rparr>"
  by (simp add: applyIntensityToSound_def mixVolumes_custom setVolumeOpt_def soundSetVolume_def
      split: option.splits)

lemma applyAll_custom_intensity:
  "customMixEnabled s \<Longrightarrow>
   foldl (\<lambda>st i. applyIntensityToSound i st) (s\<lparr>intensity := a\<rparr>) ids =
   (foldl (\<lambda>st i. applyIntensityToSound i st) s ids)\<lparr>intensity := a\<rparr>"
proof (induction ids arbitrary: s)
  case Nil
  show ?case by simp
next
  case (Cons i ids)
  have "customMixEnabled (applyIntensityToSound i s)"
    using Cons.prems by (simp add: applyIntensityToSound_frame)
  then show ?case
    using Cons.prems by (simp add: applyIntensityToSound_custom_intensity Cons.IH)
qed

lemma mixVolumes_override:
  "mixVolumes (s\<lparr>userOverrideDuringCombat := b\<rparr>) e = mixVolumes s e"
  by (rule mixVolumes_cong) simp_all

lemma applyIntensityToSound_override:
  "applyIntensityToSound i (s\<lparr>userOverrideDuringCombat := b\<rparr>) =
   (applyIntensityToSound i s)\<lparr>userOverrideDuringCombat := b\<rparr>"
  by (simp add: applyIntensityToSound_def mixVolumes_override setVolumeOpt_def soundSetVolume_def
      split: option.splits prod.splits)

lemma applyAll_override:
  "foldl (\<lambda>st i. applyIntensityToSound i st) (s\<lparr>userOverrideDuringCombat := b\<rparr>) ids =
   (foldl (\<lambda>st i. applyIntensityToSound i st) s ids)\<lparr>userOverrideDuringCombat := b\<rparr>"
  by (induction ids arbitrary: s) (simp_all add: applyIntensityToSound_override)

lemma setGlobalIntensity_custom_sounds:
  assumes "customMixEnabled s"
  shows "sounds (setGlobalIntensity a fromSync s) =
         sounds (foldl (\<lambda>st i. applyIntensityToSound i st) s (map fst (playingSounds s)))"
  using assms
  by (simp add: setGlobalIntensity_def Let_def applyAll_override applyAll_custom_intensity)

text \<open>
  Claim C6. With custom mix enabled, the volumes written to a Track Set depend only on the custom
  scalars, the master volume and the sound's own volume: each is the product of the three. Two
  runs of the volume application that differ only in the global intensity compute the same
  triple and leave the same store of sound objects, for one Track Set and for all of them.
\<close>

theorem custom_mix_ignores_intensity:
  assumes "customMixEnabled s"
  shows "mixVolumes (s\<lparr>intensity := a\<rparr>) e = mixVolumes (s\<lparr>intensity := b\<rparr>) e \<and>
         mixVolumes s e =
           (orOne (customLowVolume s) * (masterVolume s * orOne (sd_volume (sound e))),
            orOne (customMidVolume s) * (masterVolume s * orOne (sd_volume (sound e))),
            orOne (customHighVolume s) * (masterVolume s * orOne (sd_volume (sound e)))) \<and>
         sounds (applyIntensityToSound soundId (s\<lparr>intensity := a\<rparr>)) =
           sounds (applyIntensityToSound soundId (s\<lparr>intensity := b\<rparr>)) \<and>
         sounds (setGlobalIntensity a fromSync s) = sounds (setGlobalIntensity b fromSync s)"
proof -
  have "mixVolumes (s\<lparr>intensity := a\<rparr>) e = mixVolumes (s\<lparr>intensity := b\<rparr>) e"
    using assms by (simp add: mixVolumes_custom)
  moreover have "sounds (applyIntensityToSound soundId (s\<lparr>intensity := a\<rparr>)) =
      sounds (applyIntensityToSound soundId (s\<lparr>intensity := b\<rparr>))"
    using assms by (simp add: applyIntensityToSound_custom_intensity)
  moreover have "sounds (setGlobalIntensity a fromSync s) = sounds (setGlobalIntensity b fromSync s)"
    using assms by (simp only: setGlobalIntensity_custom_sounds)
  ultimately show ?thesis
    using mixVolumes_custom [OF assms] by (intro conjI)
qed

theorem custom_mix_ignores_intensity_witness:
  "customMixEnabled (exampleState\<lparr>customMixEnabled := True\<rparr>) \<and>
   mixVolumes (exampleState\<lparr>customMixEnabled := True, intensity := 0\<rparr>) entryA =
     mixVolumes (exampleState\<lparr>customMixEnabled := True, intensity := 1\<rparr>) entryA \<and>
   mixVolumes (exampleState\<lparr>customMixEnabled := True\<rparr>) entryA = (0, 0.3, 1)"
proof -
  have h: "customMixEnabled (exampleState\<lparr>customMixEnabled := True\<rparr>)" by simp
  note t = custom_mix_ignores_intensity [OF h, where a = 0 and b = 1 and e = entryA
      and soundId = "''A''" and fromSync = False]
  from t have "mixVolumes (exampleState\<lparr>customMixEnabled := True, intensity := 0\<rparr>) entryA =
     mixVolumes (exampleState\<lparr>customMixEnabled := True, intensity := 1\<rparr>) entryA"
    by simp
  moreover from t have "mixVolumes (exampleState\<lparr>customMixEnabled := True\<rparr>) entryA = (0, 0.3, 1)"
    by (simp add: exampleState_def entryA_def soundA_def orOne_def)
  ultimately show ?thesis using h by (intro conjI)
qed

section \<open>Stopping a Track Set\<close>

lemma stopOpt_sounds:
  "sounds (stopOpt r s) x = (if r = Some x then (sounds s x)\<lparr>au_playing := False\<rparr> else sounds s x)"
  by (cases r) (auto simp add: stopOpt_def soundStop_def)

lemma stopOpt_same: "sameButSounds s (stopOpt r s)"
  by (cases r) (simp_all add: sameButSounds_def stopOpt_def soundStop_def)

lemma stopLayers_same: "sameButSounds s (stopLayers e s)"
  unfolding stopLayers_def
  by (rule sameButSounds_trans [OF sameButSounds_trans [OF stopOpt_same stopOpt_same] stopOpt_same])

lemmas stopLayers_frame = sameButSoundsD [OF stopLayers_same]

lemma stopLayers_sounds:
  "sounds (stopLayers e s) x =
     (if x \<in> entryRefs e then (sounds s x)\<lparr>au_playing := False\<rparr> else sounds s x)"
  by (auto simp add: stopLayers_def stopOpt_sounds entryRefs_def)

lemma stopDriftMonitoring_fields:
  "playingSounds (stopDriftMonitoring s) = playingSounds s"
  "sounds (stopDriftMonitoring s) = sounds s"
  "driftMonitorInterval (stopDriftMonitoring s) = None"
  "timers (stopDriftMonitoring s) =
     (case driftMonitorInterval s of None \<Rightarrow> timers s | Some t \<Rightarrow> (timers s)(t := None))"
  "fadeInterval (stopDriftMonitoring s) = fadeInterval s"
  "intensity (stopDriftMonitoring s) = intensity s"
  "masterVolume (stopDriftMonitoring s) = masterVolume s"
  "customMixEnabled (stopDriftMonitoring s) = customMixEnabled s"
  "customLowVolume (stopDriftMonitoring s) = customLowVolume s"
  "customMidVolume (stopDriftMonitoring s) = customMidVolume s"
  "customHighVolume (stopDriftMonitoring s) = customHighVolume s"
  "preCombatIntensity (stopDriftMonitoring s) = preCombatIntensity s"
  "userOverrideDuringCombat (stopDriftMonitoring s) = userOverrideDuringCombat s"
  "loadingSounds (stopDriftMonitoring s) = loadingSounds s"
  "nextTimer (stopDriftMonitoring s) = nextTimer s"
  "game (stopDriftMonitoring s) = game s"
  "hostLog (stopDriftMonitoring s) = hostLog s"
  by (simp_all add: stopDriftMonitoring_def clearInterval_def split: option.splits)

lemma stopAdaptiveSound_None:
  "map_of (playingSounds s) i = None \<Longrightarrow> stopAdaptiveSound i skip s = s"
  by (simp add: stopAdaptiveSound_def)

lemma stopAdaptiveSound_Some:
  assumes "map_of (playingSounds s) i = Some e"
  shows "sounds (stopAdaptiveSound i skip s) = sounds (stopLayers e s)"
    "playingSounds (stopAdaptiveSound i skip s) = AList.delete i (playingSounds s)"
    "driftMonitorInterval (stopAdaptiveSound i skip s) =
       (if AList.delete i (playingSounds s) = [] then None else driftMonitorInterval s)"
    "timers (stopAdaptiveSound i skip s) =
       (if AList.delete i (playingSounds s) = []
        then (case driftMonitorInterval s of None \<Rightarrow> timers s | Some t \<Rightarrow> (timers s)(t := None))
        else timers s)"
    "fadeInterval (stopAdaptiveSound i skip s) = fadeInterval s"
    "intensity (stopAdaptiveSound i skip s) = intensity s"
    "masterVolume (stopAdaptiveSound i skip s) = masterVolume s"
    "customMixEnabled (stopAdaptiveSound i skip s) = customMixEnabled s"
    "customLowVolume (stopAdaptiveSound i skip s) = customLowVolume s"
    "customMidVolume (stopAdaptiveSound i skip s) = customMidVolume s"
    "customHighVolume (stopAdaptiveSound i skip s) = customHighVolume s"
    "preCombatIntensity (stopAdaptiveSound i skip s) = preCombatIntensity s"
    "userOverrideDuringCombat (stopAdaptiveSound i skip s) = userOverrideDuringCombat s"
    "loadingSounds (stopAdaptiveSound i skip s) = loadingSounds s"
    "game (stopAdaptiveSound i skip s) = game s"
  using assms
  by (simp_all add: stopAdaptiveSound_def Let_def stopLayers_def [symmetric]
      stopDriftMonitoring_fields stopLayers_frame split: option.splits)

text \<open>
  Claim C7. Stopping a sound id that has no Track Set leaves the state as it is. Stopping a
  registered one leaves none of its layers playing and removes the Track Set, keeping the others;
  when no Track Set remains, the drift monitor holds no timer and the timer it held is cleared.
  A second stop of the same id changes nothing more.
\<close>

theorem stopAdaptiveSound_idempotent:
  "(map_of (playingSounds s) soundId = None \<longrightarrow> stopAdaptiveSound soundId skipUpdate s = s) \<and>
   (\<forall>e. map_of (playingSounds s) soundId = Some e \<longrightarrow>
      (\<forall>r \<in> entryRefs e. \<not> au_playing (sounds (stopAdaptiveSound soundId skipUpdate s) r)) \<and>
      playingSounds (stopAdaptiveSound soundId skipUpdate s) =
        AList.delete soundId (playingSounds s) \<and>
      map_of (playingSounds (stopAdaptiveSound soundId skipUpdate s)) soundId = None \<and>
      (playingSounds (stopAdaptiveSound soundId skipUpdate s) = [] \<longrightarrow>
         driftMonitorInterval (stopAdaptiveSound soundId skipUpdate s) = None \<and>
         (\<forall>t. driftMonitorInterval s = Some t \<longrightarrow>
              timers (stopAdaptiveSound soundId skipUpdate s) t = None))) \<and>
   stopAdaptiveSound soundId skipAgain (stopAdaptiveSound soundId skipUpdate s) =
     stopAdaptiveSound soundId skipUpdate s"
proof (cases "map_of (playingSounds s) soundId")
  case None
  then show ?thesis by (simp add: stopAdaptiveSound_None)
next
  case (Some e)
  let ?s' = "stopAdaptiveSound soundId skipUpdate s"
  have gone: "map_of (playingSounds ?s') soundId = None"
    by (simp add: stopAdaptiveSound_Some(2) [OF Some] AList.delete_conv)
  have quiet: "\<forall>r \<in> entryRefs e. \<not> au_playing (sounds ?s' r)"
    by (simp add: stopAdaptiveSound_Some(1) [OF Some] stopLayers_sounds)
  have halted: "playingSounds ?s' = [] \<longrightarrow>
      driftMonitorInterval ?s' = None \<and> (\<forall>t. driftMonitorInterval s = Some t \<longrightarrow> timers ?s' t = None)"
    by (simp add: stopAdaptiveSound_Some(2,3,4) [OF Some])
  have again: "stopAdaptiveSound soundId skipAgain ?s' = ?s'"
    using gone by (rule stopAdaptiveSound_None)
  show ?thesis
    using Some gone quiet halted again stopAdaptiveSound_Some(2) [OF Some] by simp
qed

theorem stopAdaptiveSound_idempotent_witness:
  "map_of (playingSounds exampleState) ''A'' = Some entryA \<and>
   map_of (playingSounds exampleState) ''B'' = None \<and>
   stopAdaptiveSound ''B'' False exampleState = exampleState \<and>
   \<not> au_playing (sounds (stopAdaptiveSound ''A'' False exampleState) 2) \<and>
   playingSounds (stopAdaptiveSound ''A'' False exampleState) = [] \<and>
   driftMonitorInterval (stopAdaptiveSound ''A'' False exampleState) = None \<and>
   timers (stopAdaptiveSound ''A'' False exampleState) 1 = None"
proof -
  have a: "map_of (playingSounds exampleState) ''A'' = Some entryA"
    and b: "map_of (playingSounds exampleState) ''B'' = None"
    and d: "driftMonitorInterval exampleState = Some 1"
    and r: "2 \<in> entryRefs entryA"
    and l: "AList.delete ''A'' (playingSounds exampleState) = []"
    by (simp_all add: exampleState_def entryRefs_def entryA_def)
  note t = stopAdaptiveSound_idempotent [of exampleState "''A''" False False]
  note u = stopAdaptiveSound_idempotent [of exampleState "''B''" False False]
  from u b have "stopAdaptiveSound ''B'' False exampleState = exampleState" by blast
  moreover from t a r have "\<not> au_playing (sounds (stopAdaptiveSound ''A'' False exampleState) 2)"
    by blast
  moreover from t a l have e: "playingSounds (stopAdaptiveSound ''A'' False exampleState) = []"
    by simp
  moreover from t a e d have "driftMonitorInterval (stopAdaptiveSound ''A'' False exampleState) = None \<and>
      timers (stopAdaptiveSound ''A'' False exampleState) 1 = None"
    by blast
  ultimately show ?thesis using a b by simp
qed

section \<open>Intensity, fades and the combat policy\<close>

lemma setGlobalIntensity_fields:
  "intensity (setGlobalIntensity v fromSync s) = max 0 (min 1 v)"
  "userOverrideDuringCombat (setGlobalIntensity v fromSync s) =
     (if \<not> fromSync \<and> preCombatIntensity s \<noteq> None then True else userOverrideDuringCombat s)"
  "preCombatIntensity (setGlobalIntensity v fromSync s) = preCombatIntensity s"
  "fadeInterval (setGlobalIntensity v fromSync s) = fadeInterval s"
  "timers (setGlobalIntensity v fromSync s) = timers s"
  "nextTimer (setGlobalIntensity v fromSync s) = nextTimer s"
  "driftMonitorInterval (setGlobalIntensity v fromSync s) = driftMonitorInterval s"
  "playingSounds (setGlobalIntensity v fromSync s) = playingSounds s"
  "masterVolume (setGlobalIntensity v fromSync s) = masterVolume s"
  "game (setGlobalIntensity v fromSync s) =
     (if \<not> fromSync \<and> gm_isGM (game s)
      then (game s)\<lparr>gm_currentIntensity := mathRound (max 0 (min 1 v) * 100)\<rparr> else game s)"
  by (simp_all add: setGlobalIntensity_def Let_def applyAll_frame)

lemma fadeTo_fields:
  "fadeInterval (fadeTo target d ui now s) = Some (nextTimer s)"
  "timers (fadeTo target d ui now s) =
     (case fadeInterval s of None \<Rightarrow> timers s | Some t \<Rightarrow> (timers s)(t := None))
       (nextTimer s \<mapsto> FadeTimer
          \<lparr>fd_startIntensity = intensity s, fd_delta = target - intensity s,
           fd_targetIntensity = target, fd_duration = d, fd_startTime = now, fd_updateUI = ui\<rparr>)"
  "nextTimer (fadeTo target d ui now s) = Suc (nextTimer s)"
  "intensity (fadeTo target d ui now s) = intensity s"
  "preCombatIntensity (fadeTo target d ui now s) = preCombatIntensity s"
  "userOverrideDuringCombat (fadeTo target d ui now s) = userOverrideDuringCombat s"
  "playingSounds (fadeTo target d ui now s) = playingSounds s"
  "sounds (fadeTo target d ui now s) = sounds s"
  "game (fadeTo target d ui now s) = game s"
  by (simp_all add: fadeTo_def Let_def setInterval_def clearInterval_def split: option.splits)

text \<open>The tick of a fade at or after its end time writes the clamped target and clears the
  timer held in \<open>fadeInterval\<close>.\<close>

lemma fadeStep_final:
  assumes "fd_duration f > 0" "now \<ge> fd_startTime f + fd_duration f"
  shows "intensity (fadeStep f now s) = max 0 (min 1 (fd_startIntensity f + fd_delta f))"
    "fadeInterval (fadeStep f now s) = None"
    "timers (fadeStep f now s) =
       (case fadeInterval s of None \<Rightarrow> timers s | Some t \<Rightarrow> (timers s)(t := None))"
proof -
  have ge: "(now - fd_startTime f) / fd_duration f \<ge> 1"
    using assms by (simp add: field_simps)
  then have p: "min ((now - fd_startTime f) / fd_duration f) 1 = 1" by simp
  show "intensity (fadeStep f now s) = max 0 (min 1 (fd_startIntensity f + fd_delta f))"
    unfolding fadeStep_def Let_def p
    by (simp add: setGlobalIntensity_fields clearInterval_def split: option.splits)
  show "fadeInterval (fadeStep f now s) = None"
    unfolding fadeStep_def Let_def p by simp
  show "timers (fadeStep f now s) =
       (case fadeInterval s of None \<Rightarrow> timers s | Some t \<Rightarrow> (timers s)(t := None))"
    unfolding fadeStep_def Let_def p
    by (simp add: setGlobalIntensity_fields clearInterval_def split: option.splits)
qed


lemma fadeStep_intensity_indep:
  "intensity (fadeStep f now (setGlobalIntensity v fromSync s)) = intensity (fadeStep f now s)"
  by (simp add: fadeStep_def Let_def setGlobalIntensity_fields clearInterval_def
      split: option.splits)

lemma setMasterVolume_fields:
  "userOverrideDuringCombat (setMasterVolume vol s) =
     (if preCombatIntensity s \<noteq> None then True else userOverrideDuringCombat s)"
  "preCombatIntensity (setMasterVolume vol s) = preCombatIntensity s"
  "intensity (setMasterVolume vol s) = max 0 (min 1 (intensity s))"
  "masterVolume (setMasterVolume vol s) = max 0 (min 1 vol)"
  "fadeInterval (setMasterVolume vol s) = fadeInterval s"
  "timers (setMasterVolume vol s) = timers s"
  "nextTimer (setMasterVolume vol s) = nextTimer s"
  "gm_autoSetCombatIntensity (game (setMasterVolume vol s)) = gm_autoSetCombatIntensity (game s)"
  "gm_combats (game (setMasterVolume vol s)) = gm_combats (game s)"
  by (simp_all add: setMasterVolume_def Let_def setGlobalIntensity_fields)

lemma deleteCombat_disabled:
  "\<not> gm_autoSetCombatIntensity (game s) \<Longrightarrow> deleteCombat c now s = s"
  by (simp add: deleteCombat_def)

lemma deleteCombat_others:
  "otherActiveCombats c s \<noteq> [] \<Longrightarrow> deleteCombat c now s = s"
  by (simp add: deleteCombat_def Let_def)

lemma deleteCombat_restore:
  "gm_autoSetCombatIntensity (game s) \<Longrightarrow> otherActiveCombats c s = [] \<Longrightarrow>
   preCombatIntensity s = Some p \<Longrightarrow> \<not> userOverrideDuringCombat s \<Longrightarrow>
   deleteCombat c now s =
     (fadeTo p 2000 True now s)\<lparr>preCombatIntensity := None, userOverrideDuringCombat := False\<rparr>"
  by (simp add: deleteCombat_def Let_def)

lemma deleteCombat_keep:
  "gm_autoSetCombatIntensity (game s) \<Longrightarrow> otherActiveCombats c s = [] \<Longrightarrow>
   preCombatIntensity s = None \<or> userOverrideDuringCombat s \<Longrightarrow>
   deleteCombat c now s = s\<lparr>preCombatIntensity := None, userOverrideDuringCombat := False\<rparr>"
  by (auto simp add: deleteCombat_def Let_def split: option.splits)

lemma deleteCombat_cleared:
  "gm_autoSetCombatIntensity (game s) \<Longrightarrow> otherActiveCombats c s = [] \<Longrightarrow>
   preCombatIntensity (deleteCombat c now s) = None \<and>
   \<not> userOverrideDuringCombat (deleteCombat c now s)"
  by (simp add: deleteCombat_def Let_def)

lemma timerFire_fade:
  "timers s t = Some (FadeTimer f) \<Longrightarrow> timerFire t now s = fadeStep f now s"
  by (simp add: timerFire_def)

text \<open>
  Claim C9. While a combat snapshot is held, \<open>setMasterVolume\<close> sets the override flag (it calls
  \<open>setGlobalIntensity\<close> without the sync flag) and keeps the snapshot. At the last combat end,
  with the policy enabled, no fade is then started: timers, \<open>fadeInterval\<close> and intensity are as
  the master-volume change left them. Had the flag not been set, the same combat end would have
  scheduled the fade back to the snapshot.
\<close>

theorem setMasterVolume_marks_override:
  assumes "preCombatIntensity s = Some p"
  shows "userOverrideDuringCombat (setMasterVolume vol s) \<and>
         preCombatIntensity (setMasterVolume vol s) = Some p \<and>
         (gm_autoSetCombatIntensity (game s) \<and> otherActiveCombats c s = [] \<longrightarrow>
            timers (deleteCombat c now (setMasterVolume vol s)) = timers (setMasterVolume vol s) \<and>
            fadeInterval (deleteCombat c now (setMasterVolume vol s)) =
              fadeInterval (setMasterVolume vol s) \<and>
            intensity (deleteCombat c now (setMasterVolume vol s)) =
              intensity (setMasterVolume vol s) \<and>
            (\<not> userOverrideDuringCombat s \<longrightarrow>
               fadeInterval (deleteCombat c now s) = Some (nextTimer s) \<and>
               timers (deleteCombat c now s) (nextTimer s) =
                 Some (FadeTimer
                   \<lparr>fd_startIntensity = intensity s, fd_delta = p - intensity s,
                    fd_targetIntensity = p, fd_duration = 2000, fd_startTime = now,
                    fd_updateUI = True\<rparr>)))"
proof -
  let ?s' = "setMasterVolume vol s"
  have flag: "userOverrideDuringCombat ?s'" and snap: "preCombatIntensity ?s' = Some p"
    using assms by (simp_all add: setMasterVolume_fields)
  have rest: "timers (deleteCombat c now ?s') = timers ?s' \<and>
              fadeInterval (deleteCombat c now ?s') = fadeInterval ?s' \<and>
              intensity (deleteCombat c now ?s') = intensity ?s'"
    if "gm_autoSetCombatIntensity (game s)" "otherActiveCombats c s = []"
  proof -
    have "gm_autoSetCombatIntensity (game ?s')" "otherActiveCombats c ?s' = []"
      using that by (simp_all add: otherActiveCombats_def setMasterVolume_fields)
    then have "deleteCombat c now ?s' =
        ?s'\<lparr>preCombatIntensity := None, userOverrideDuringCombat := False\<rparr>"
      using flag by (intro deleteCombat_keep) simp_all
    then show ?thesis by simp
  qed
  have fade: "fadeInterval (deleteCombat c now s) = Some (nextTimer s) \<and>
        timers (deleteCombat c now s) (nextTimer s) =
          Some (FadeTimer
            \<lparr>fd_startIntensity = intensity s, fd_delta = p - intensity s,
             fd_targetIntensity = p, fd_duration = 2000, fd_startTime = now,
             fd_updateUI = True\<rparr>)"
    if "gm_autoSetCombatIntensity (game s)" "otherActiveCombats c s = []"
       "\<not> userOverrideDuringCombat s"
    using deleteCombat_restore [OF that(1,2) assms that(3)] by (simp add: fadeTo_fields)
  show ?thesis using flag snap rest fade by blast
qed

theorem setMasterVolume_marks_override_witness:
  "preCombatIntensity (exampleState\<lparr>preCombatIntensity := Some 0.2\<rparr>) = Some 0.2 \<and>
   gm_autoSetCombatIntensity (game (exampleState\<lparr>preCombatIntensity := Some 0.2\<rparr>)) \<and>
   otherActiveCombats combat1 (exampleState\<lparr>preCombatIntensity := Some 0.2\<rparr>) = [] \<and>
   \<not> userOverrideDuringCombat (exampleState\<lparr>preCombatIntensity := Some 0.2\<rparr>) \<and>
   userOverrideDuringCombat (setMasterVolume 0.5 (exampleState\<lparr>preCombatIntensity := Some 0.2\<rparr>)) \<and>
   fadeInterval (deleteCombat combat1 0
      (setMasterVolume 0.5 (exampleState\<lparr>preCombatIntensity := Some 0.2\<rparr>))) = None \<and>
   fadeInterval (deleteCombat combat1 0 (exampleState\<lparr>preCombatIntensity := Some 0.2\<rparr>)) = Some 2"
proof -
  let ?s = "exampleState\<lparr>preCombatIntensity := Some 0.2\<rparr>"
  have h: "preCombatIntensity ?s = Some 0.2" "gm_autoSetCombatIntensity (game ?s)"
    "otherActiveCombats combat1 ?s = []" "\<not> userOverrideDuringCombat ?s"
    "fadeInterval ?s = None" "nextTimer ?s = 2"
    by (simp_all add: exampleState_def exampleGame_def otherActiveCombats_def)
  note t = setMasterVolume_marks_override [OF h(1), where vol = "0.5" and c = combat1 and now = 0]
  from t h have "userOverrideDuringCombat (setMasterVolume 0.5 ?s)" by blast
  moreover from t h have "fadeInterval (deleteCombat combat1 0 (setMasterVolume 0.5 ?s)) = None"
    by (simp add: setMasterVolume_fields)
  moreover from t h have "fadeInterval (deleteCombat combat1 0 ?s) = Some 2"
    by simp
  ultimately show ?thesis using h by simp
qed

text \<open>
  Claim C5, as the code has it. With the auto-set-combat-intensity setting off, a combat end
  changes nothing: no fade starts and the two policy fields are kept. With the setting on: while
  another started combat remains, nothing changes; on the last combat end both fields are
  cleared, and a fade back to the snapshot over 2000 ms is scheduled exactly when a snapshot is
  held and the user did not override (its tick 2000 ms later writes the snapshot, clamped to
  \<open>[0, 1]\<close>); otherwise only the two fields change.
\<close>

theorem deleteCombat_policy:
  "(\<not> gm_autoSetCombatIntensity (game s) \<longrightarrow> deleteCombat c now s = s) \<and>
   (otherActiveCombats c s \<noteq> [] \<longrightarrow> deleteCombat c now s = s) \<and>
   (gm_autoSetCombatIntensity (game s) \<and> otherActiveCombats c s = [] \<longrightarrow>
      preCombatIntensity (deleteCombat c now s) = None \<and>
      \<not> userOverrideDuringCombat (deleteCombat c now s) \<and>
      (\<forall>p. preCombatIntensity s = Some p \<and> \<not> userOverrideDuringCombat s \<longrightarrow>
         deleteCombat c now s =
           (fadeTo p 2000 True now s)\<lparr>preCombatIntensity := None,
                                        userOverrideDuringCombat := False\<rparr> \<and>
         fadeInterval (deleteCombat c now s) = Some (nextTimer s) \<and>
         timers (deleteCombat c now s) (nextTimer s) =
           Some (FadeTimer
             \<lparr>fd_startIntensity = intensity s, fd_delta = p - intensity s,
              fd_targetIntensity = p, fd_duration = 2000, fd_startTime = now,
              fd_updateUI = True\<rparr>) \<and>
         intensity (timerFire (nextTimer s) (now + 2000) (deleteCombat c now s)) =
           max 0 (min 1 p)) \<and>
      (preCombatIntensity s = None \<or> userOverrideDuringCombat s \<longrightarrow>
         deleteCombat c now s =
           s\<lparr>preCombatIntensity := None, userOverrideDuringCombat := False\<rparr>))"
proof -
  have restore: "deleteCombat c now s =
         (fadeTo p 2000 True now s)\<lparr>preCombatIntensity := None,
                                      userOverrideDuringCombat := False\<rparr> \<and>
       fadeInterval (deleteCombat c now s) = Some (nextTimer s) \<and>
       timers (deleteCombat c now s) (nextTimer s) =
         Some (FadeTimer
           \<lparr>fd_startIntensity = intensity s, fd_delta = p - intensity s,
            fd_targetIntensity = p, fd_duration = 2000, fd_startTime = now,
            fd_updateUI = True\<rparr>) \<and>
       intensity (timerFire (nextTimer s) (now + 2000) (deleteCombat c now s)) =
         max 0 (min 1 p)"
    if on: "gm_autoSetCombatIntensity (game s)" "otherActiveCombats c s = []"
      and sn: "preCombatIntensity s = Some p" "\<not> userOverrideDuringCombat s" for p
  proof -
    let ?f = "\<lparr>fd_startIntensity = intensity s, fd_delta = p - intensity s,
               fd_targetIntensity = p, fd_duration = 2000, fd_startTime = now,
               fd_updateUI = True\<rparr>"
    note eq = deleteCombat_restore [OF on sn, of now]
    have tm: "timers (deleteCombat c now s) (nextTimer s) = Some (FadeTimer ?f)"
      by (simp add: eq fadeTo_fields)
    have "intensity (fadeStep ?f (now + 2000) (deleteCombat c now s)) =
            max 0 (min 1 (fd_startIntensity ?f + fd_delta ?f))"
      by (rule fadeStep_final) simp_all
    then have "intensity (timerFire (nextTimer s) (now + 2000) (deleteCombat c now s)) =
            max 0 (min 1 p)"
      by (simp add: timerFire_fade [OF tm])
    then show ?thesis using eq tm by (simp add: fadeTo_fields)
  qed
  show ?thesis
    using deleteCombat_disabled [of s c now] deleteCombat_others [of c s now]
      deleteCombat_cleared [of s c now] deleteCombat_keep [of s c now] restore
    by blast
qed

theorem deleteCombat_policy_witness:
  "otherActiveCombats combat1
     (exampleState\<lparr>preCombatIntensity := Some 0.2,
                    game := exampleGame\<lparr>gm_combats := [combat1, combat2]\<rparr>\<rparr>) \<noteq> [] \<and>
   deleteCombat combat1 0
     (exampleState\<lparr>preCombatIntensity := Some 0.2,
                    game := exampleGame\<lparr>gm_combats := [combat1, combat2]\<rparr>\<rparr>) =
     exampleState\<lparr>preCombatIntensity := Some 0.2,
                    game := exampleGame\<lparr>gm_combats := [combat1, combat2]\<rparr>\<rparr> \<and>
   gm_autoSetCombatIntensity (game (exampleState\<lparr>preCombatIntensity := Some 0.2\<rparr>)) \<and>
   otherActiveCombats combat2 (exampleState\<lparr>preCombatIntensity := Some 0.2\<rparr>) = [] \<and>
   \<not> userOverrideDuringCombat (exampleState\<lparr>preCombatIntensity := Some 0.2\<rparr>) \<and>
   preCombatIntensity (deleteCombat combat2 0 (exampleState\<lparr>preCombatIntensity := Some 0.2\<rparr>)) =
     None \<and>
   fadeInterval (deleteCombat combat2 0 (exampleState\<lparr>preCombatIntensity := Some 0.2\<rparr>)) =
     Some 2 \<and>
   intensity (timerFire 2 2000
     (deleteCombat combat2 0 (exampleState\<lparr>preCombatIntensity := Some 0.2\<rparr>))) = 0.2"
proof -
  let ?s2 = "exampleState\<lparr>preCombatIntensity := Some 0.2,
                    game := exampleGame\<lparr>gm_combats := [combat1, combat2]\<rparr>\<rparr>"
  let ?s = "exampleState\<lparr>preCombatIntensity := Some 0.2\<rparr>"
  have h2: "otherActiveCombats combat1 ?s2 \<noteq> []"
    by (simp add: otherActiveCombats_def combat1_def combat2_def)
  have h: "gm_autoSetCombatIntensity (game ?s)" "otherActiveCombats combat2 ?s = []"
    "preCombatIntensity ?s = Some 0.2" "\<not> userOverrideDuringCombat ?s" "nextTimer ?s = 2"
    by (simp_all add: exampleState_def exampleGame_def otherActiveCombats_def)
  have n: "nextTimer exampleState = 2" by (simp add: exampleState_def)
  note t2 = deleteCombat_policy [of ?s2 combat1 0]
  note t = deleteCombat_policy [of ?s combat2 0]
  note c3 = t [THEN conjunct2, THEN conjunct2, THEN mp, OF conjI [OF h(1) h(2)]]
  note r = c3 [THEN conjunct2, THEN conjunct2, THEN conjunct1, rule_format,
      OF conjI [OF h(3) h(4)], THEN conjunct2]
  from t2 h2 have "deleteCombat combat1 0 ?s2 = ?s2" by blast
  moreover from c3 have "preCombatIntensity (deleteCombat combat2 0 ?s) = None" by (rule conjunct1)
  moreover from r have "fadeInterval (deleteCombat combat2 0 ?s) = Some 2"
    by (simp add: n)
  moreover from r have "intensity (timerFire 2 2000 (deleteCombat combat2 0 ?s)) = 0.2"
    by (simp add: n)
  ultimately show ?thesis using h(1,2,4) h2 by (intro conjI)
qed

text \<open>The claim as written fails when the setting has been switched off during the combat
  window: at the last combat end, with no override by the user, no fade is scheduled and the
  snapshot is still held. And with the setting on but no snapshot held, the last combat end
  schedules no fade although the user did not override.\<close>

theorem deleteCombat_policy_counterexample:
  "otherActiveCombats combat1
     (exampleState\<lparr>preCombatIntensity := Some 0.2,
                    game := exampleGame\<lparr>gm_autoSetCombatIntensity := False\<rparr>\<rparr>) = [] \<and>
   \<not> userOverrideDuringCombat
     (exampleState\<lparr>preCombatIntensity := Some 0.2,
                    game := exampleGame\<lparr>gm_autoSetCombatIntensity := False\<rparr>\<rparr>) \<and>
   fadeInterval (deleteCombat combat1 0
     (exampleState\<lparr>preCombatIntensity := Some 0.2,
                    game := exampleGame\<lparr>gm_autoSetCombatIntensity := False\<rparr>\<rparr>)) = None \<and>
   timers (deleteCombat combat1 0
     (exampleState\<lparr>preCombatIntensity := Some 0.2,
                    game := exampleGame\<lparr>gm_autoSetCombatIntensity := False\<rparr>\<rparr>)) 2 = None \<and>
   preCombatIntensity (deleteCombat combat1 0
     (exampleState\<lparr>preCombatIntensity := Some 0.2,
                    game := exampleGame\<lparr>gm_autoSetCombatIntensity := False\<rparr>\<rparr>)) = Some 0.2 \<and>
   gm_autoSetCombatIntensity (game exampleState) \<and>
   otherActiveCombats combat1 exampleState = [] \<and>
   \<not> userOverrideDuringCombat exampleState \<and>
   preCombatIntensity exampleState = None \<and>
   fadeInterval (deleteCombat combat1 0 exampleState) = None \<and>
   timers (deleteCombat combat1 0 exampleState) 2 = None"
  by (simp add: deleteCombat_def otherActiveCombats_def exampleState_def exampleGame_def)

section \<open>The fade timer\<close>






section \<open>Start requests for a sound without alternate layers\<close>


lemma playAdaptiveSound_unconfigured_simultaneous:
  assumes "\<not> truthy (sd_midIntensityPath doc)" "\<not> truthy (sd_lowIntensityPath doc)"
    and "sd_id doc \<notin> loadingSounds s"
    and "sd_parent doc = None \<or> (\<exists>pl. sd_parent doc = Some pl \<and> pl_mode pl = SIMULTANEOUS)"
  shows "playAdaptiveSound out doc s = s\<lparr>hostLog := hostLog s @ [WarnMissingTracks (sd_id doc)]\<rparr>"
  using assms by (auto simp add: playAdaptiveSound_def Let_def)

text \<open>In any other playlist the Track Sets of the same playlist are stopped first, and only
  then is the missing configuration noticed.\<close>

lemma playAdaptiveSound_unconfigured:
  assumes "\<not> truthy (sd_midIntensityPath doc)" "\<not> truthy (sd_lowIntensityPath doc)"
    and "sd_id doc \<notin> loadingSounds s"
    and "sd_parent doc = Some pl" "pl_mode pl \<noteq> SIMULTANEOUS"
  shows "playAdaptiveSound out doc s =
     (foldl (\<lambda>st i. stopAdaptiveSound i False st) s (soundsToStop pl doc s))
       \<lparr>hostLog := hostLog (foldl (\<lambda>st i. stopAdaptiveSound i False st) s (soundsToStop pl doc s))
                     @ [WarnMissingTracks (sd_id doc)]\<rparr>"
  using assms by (simp add: playAdaptiveSound_def Let_def)

lemma stopAdaptiveSound_hostLog:
  assumes "map_of (playingSounds s) i = Some e"
  shows "hostLog (stopAdaptiveSound i skip s) =
     hostLog s @
     (if \<not> skip \<and> sd_isOwner (sound e) \<and> sd_playing (sound e) \<and>
         (case sd_parent (sound e) of None \<Rightarrow> False
          | Some p \<Rightarrow> pl_id p \<in> set (gm_playlists (game s)))
      then [DocUpdate (sd_id (sound e)) False] else [])"
  using assms
  by (simp add: stopAdaptiveSound_def Let_def stopLayers_def [symmetric]
      stopDriftMonitoring_fields stopLayers_frame split: option.splits)

text \<open>
  Claim C1 at a concrete request. Sound \<open>A\<close> is playing in the sequential playlist \<open>P\<close>; a start
  request arrives for sound \<open>B\<close> of the same playlist, which has neither a mid nor a low path.
  The request registers no Track Set for \<open>B\<close>, but before the missing configuration is noticed
  the Track Set of \<open>A\<close> has been stopped and removed, and with it the drift monitor.
\<close>

theorem playAdaptiveSound_unconfigured_stops_sibling:
  "\<not> truthy (sd_midIntensityPath soundB) \<and> \<not> truthy (sd_lowIntensityPath soundB) \<and>
   map_of (playingSounds exampleState) ''A'' = Some entryA \<and>
   au_playing (sounds exampleState 0) \<and>
   driftMonitorInterval exampleState = Some 1 \<and>
   playingSounds (playAdaptiveSound exampleOutcome soundB exampleState) = [] \<and>
   \<not> au_playing (sounds (playAdaptiveSound exampleOutcome soundB exampleState) 0) \<and>
   \<not> au_playing (sounds (playAdaptiveSound exampleOutcome soundB exampleState) 1) \<and>
   \<not> au_playing (sounds (playAdaptiveSound exampleOutcome soundB exampleState) 2) \<and>
   driftMonitorInterval (playAdaptiveSound exampleOutcome soundB exampleState) = None \<and>
   timers (playAdaptiveSound exampleOutcome soundB exampleState) 1 = None \<and>
   hostLog (playAdaptiveSound exampleOutcome soundB exampleState) =
     [DocUpdate ''A'' False, WarnMissingTracks ''B'']"
proof -
  have a: "map_of (playingSounds exampleState) ''A'' = Some entryA"
    by (simp add: exampleState_def)
  have stop: "soundsToStop examplePlaylist soundB exampleState = [''A'']"
    by (simp add: soundsToStop_def exampleState_def entryA_def soundA_def soundB_def)
  have b: "\<not> truthy (sd_midIntensityPath soundB)" "\<not> truthy (sd_lowIntensityPath soundB)"
    "sd_id soundB \<notin> loadingSounds exampleState" "sd_parent soundB = Some examplePlaylist"
    "pl_mode examplePlaylist \<noteq> SIMULTANEOUS"
    by (simp_all add: soundB_def truthy_def exampleState_def examplePlaylist_def)
  have eq: "playAdaptiveSound exampleOutcome soundB exampleState =
      (stopAdaptiveSound ''A'' False exampleState)
        \<lparr>hostLog := hostLog (stopAdaptiveSound ''A'' False exampleState) @ [WarnMissingTracks ''B'']\<rparr>"
    unfolding playAdaptiveSound_unconfigured [OF b] stop by (simp add: soundB_def)
  have log: "hostLog (stopAdaptiveSound ''A'' False exampleState) = [DocUpdate ''A'' False]"
    unfolding stopAdaptiveSound_hostLog [OF a]
    by (simp add: exampleState_def exampleGame_def entryA_def soundA_def examplePlaylist_def)
  have pre: "au_playing (sounds exampleState 0)" "driftMonitorInterval exampleState = Some 1"
    by (simp_all add: exampleState_def playingAt_def)
  have refs: "0 \<in> entryRefs entryA" "1 \<in> entryRefs entryA" "2 \<in> entryRefs entryA"
    by (simp_all add: entryRefs_def entryA_def)
  have del: "AList.delete ''A'' (playingSounds exampleState) = []"
    by (simp add: exampleState_def)
  show ?thesis
    using a b(1,2) pre refs
    by (simp add: eq log stopAdaptiveSound_Some [OF a] stopLayers_sounds del)
qed

section \<open>Drift monitor\<close>

lemma setVolumeOpt_sounds:
  "sounds (setVolumeOpt r v s) x =
     (if r = Some x then (sounds s x)\<lparr>au_volume := v\<rparr> else sounds s x)"
  by (cases r) (auto simp add: setVolumeOpt_def soundSetVolume_def)

lemma applyIntensityToSound_sounds:
  assumes "map_of (playingSounds s) i = Some e"
  shows "sounds (applyIntensityToSound i s) x =
     (if x \<in> entryRefs e then (sounds s x)\<lparr>au_volume := mixVolumeAt s e x\<rparr> else sounds s x)"
proof -
  obtain l m h where mv: "mixVolumes s e = (l, m, h)" by (cases "mixVolumes s e")
  have "applyIntensityToSound i s =
          setVolumeOpt (highSound e) h (setVolumeOpt (midSound e) m (setVolumeOpt (lowSound e) l s))"
    by (simp add: applyIntensityToSound_def assms mv)
  then show ?thesis
    by (auto simp add: setVolumeOpt_sounds entryRefs_def mixVolumeAt_def mv)
qed

lemma mixVolumeAt_cong:
  "customMixEnabled s' = customMixEnabled s \<Longrightarrow> intensity s' = intensity s \<Longrightarrow>
   masterVolume s' = masterVolume s \<Longrightarrow> customLowVolume s' = customLowVolume s \<Longrightarrow>
   customMidVolume s' = customMidVolume s \<Longrightarrow> customHighVolume s' = customHighVolume s \<Longrightarrow>
   mixVolumeAt s' e x = mixVolumeAt s e x"
  by (simp add: mixVolumeAt_def mixVolumes_cong [of s' s])

lemma sameMix_refl: "sameMix s s"
  by (simp add: sameMix_def)

lemma sameMix_trans: "sameMix s t \<Longrightarrow> sameMix t u \<Longrightarrow> sameMix s u"
  by (simp add: sameMix_def)

lemma sameMix_mixVolumeAt: "sameMix s s' \<Longrightarrow> mixVolumeAt s' e x = mixVolumeAt s e x"
  unfolding sameMix_def by (intro mixVolumeAt_cong) simp_all

lemma checkDrift_None: "checkDrift k e p base None lbl s = s"
  by (simp add: checkDrift_def)

lemma checkDrift_keep:
  "\<not> drifted base (sounds s r) \<Longrightarrow> checkDrift k e p base (Some r) lbl s = s"
  by (simp add: checkDrift_def drifted_def Let_def)

lemma checkDrift_resync:
  assumes "map_of (playingSounds s) k = Some e" "drifted base (sounds s r)" "r \<noteq> p"
    "r \<in> entryRefs e"
  shows "sounds (checkDrift k e p base (Some r) lbl s) x =
      (if x = r then (sounds s r)\<lparr>au_playing := True,
                       au_currentTime := au_currentTime (sounds s p),
                       au_volume := mixVolumeAt s e r, au_loop := sd_repeat (sound e)\<rparr>
       else if x \<in> entryRefs e then (sounds s x)\<lparr>au_volume := mixVolumeAt s e x\<rparr>
       else sounds s x)"
    and "playingSounds (checkDrift k e p base (Some r) lbl s) = playingSounds s"
    and "sameMix s (checkDrift k e p base (Some r) lbl s)"
proof -
  define s3 where "s3 = soundPlay r 0 (sd_repeat (sound e))
      (Some (au_currentTime (sounds (soundStop r (s\<lparr>hostLog := hostLog s @ [WarnDrift k lbl]\<rparr>)) p)))
      (soundStop r (s\<lparr>hostLog := hostLog s @ [WarnDrift k lbl]\<rparr>))"
  have eq: "checkDrift k e p base (Some r) lbl s = applyIntensityToSound k s3"
    using assms(2) by (simp add: checkDrift_def drifted_def Let_def s3_def)
  have ps: "playingSounds s3 = playingSounds s"
    by (simp add: s3_def soundPlay_def soundStop_def)
  have mx: "sameMix s s3"
    by (simp add: sameMix_def s3_def soundPlay_def soundStop_def)
  have snd3: "sounds s3 x =
      (if x = r then (sounds s r)\<lparr>au_playing := True,
                       au_currentTime := au_currentTime (sounds s p),
                       au_volume := 0, au_loop := sd_repeat (sound e)\<rparr>
       else sounds s x)" for x
    using assms(3) by (simp add: s3_def soundPlay_def soundStop_def)
  have e3: "map_of (playingSounds s3) k = Some e" using assms(1) ps by simp
  show "sounds (checkDrift k e p base (Some r) lbl s) x =
      (if x = r then (sounds s r)\<lparr>au_playing := True,
                       au_currentTime := au_currentTime (sounds s p),
                       au_volume := mixVolumeAt s e r, au_loop := sd_repeat (sound e)\<rparr>
       else if x \<in> entryRefs e then (sounds s x)\<lparr>au_volume := mixVolumeAt s e x\<rparr>
       else sounds s x)"
    using assms(4)
    by (simp add: eq applyIntensityToSound_sounds [OF e3] snd3 sameMix_mixVolumeAt [OF mx])
  show "playingSounds (checkDrift k e p base (Some r) lbl s) = playingSounds s"
    by (simp add: eq applyIntensityToSound_frame ps)
  show "sameMix s (checkDrift k e p base (Some r) lbl s)"
    using mx by (simp add: eq sameMix_def applyIntensityToSound_frame)
qed

text \<open>One check of the monitor: the checked layer, if it is not the primary and has drifted,
  is playing again at the primary's time; no other position changes; and when a layer was
  resynchronised every layer of the Track Set carries its mix volume.\<close>

lemma checkStep_effect:
  assumes "map_of (playingSounds st) k = Some e" "set_option (fst c) \<subseteq> entryRefs e"
  shows "playingSounds (checkStep k e p base c st) = playingSounds st"
    and "sameMix st (checkStep k e p base c st)"
    and "au_playing (sounds (checkStep k e p base c st) x) =
           (if Some x = fst c \<and> x \<noteq> p \<and> drifted base (sounds st x) then True
            else au_playing (sounds st x))"
    and "au_currentTime (sounds (checkStep k e p base c st) x) =
           (if Some x = fst c \<and> x \<noteq> p \<and> drifted base (sounds st x)
            then au_currentTime (sounds st p) else au_currentTime (sounds st x))"
    and "au_duration (sounds (checkStep k e p base c st) x) = au_duration (sounds st x)"
    and "au_loop (sounds (checkStep k e p base c st) x) =
           (if Some x = fst c \<and> x \<noteq> p \<and> drifted base (sounds st x)
            then sd_repeat (sound e) else au_loop (sounds st x))"
    and "x \<notin> entryRefs e \<Longrightarrow> sounds (checkStep k e p base c st) x = sounds st x"
    and "au_volume (sounds (checkStep k e p base c st) x) =
           (if (\<exists>r. Some r = fst c \<and> r \<noteq> p \<and> drifted base (sounds st r)) \<and> x \<in> entryRefs e
            then mixVolumeAt st e x else au_volume (sounds st x))"
proof -
  consider (none) "fst c = None" | (prim) "fst c = Some p"
    | (keep) r where "fst c = Some r" "r \<noteq> p" "\<not> drifted base (sounds st r)"
    | (sync) r where "fst c = Some r" "r \<noteq> p" "drifted base (sounds st r)"
    by (cases "fst c") auto
  then have "playingSounds (checkStep k e p base c st) = playingSounds st \<and>
    sameMix st (checkStep k e p base c st) \<and>
    au_playing (sounds (checkStep k e p base c st) x) =
           (if Some x = fst c \<and> x \<noteq> p \<and> drifted base (sounds st x) then True
            else au_playing (sounds st x)) \<and>
    au_currentTime (sounds (checkStep k e p base c st) x) =
           (if Some x = fst c \<and> x \<noteq> p \<and> drifted base (sounds st x)
            then au_currentTime (sounds st p) else au_currentTime (sounds st x)) \<and>
    au_duration (sounds (checkStep k e p base c st) x) = au_duration (sounds st x) \<and>
    au_loop (sounds (checkStep k e p base c st) x) =
           (if Some x = fst c \<and> x \<noteq> p \<and> drifted base (sounds st x)
            then sd_repeat (sound e) else au_loop (sounds st x)) \<and>
    (x \<notin> entryRefs e \<longrightarrow> sounds (checkStep k e p base c st) x = sounds st x) \<and>
    au_volume (sounds (checkStep k e p base c st) x) =
           (if (\<exists>r. Some r = fst c \<and> r \<noteq> p \<and> drifted base (sounds st r)) \<and> x \<in> entryRefs e
            then mixVolumeAt st e x else au_volume (sounds st x))"
  proof cases
    case none
    then show ?thesis by (simp add: checkStep_def checkDrift_None sameMix_refl)
  next
    case prim
    then show ?thesis by (auto simp add: checkStep_def sameMix_refl)
  next
    case keep
    then show ?thesis by (auto simp add: checkStep_def checkDrift_keep sameMix_refl)
  next
    case sync
    have r: "r \<in> entryRefs e" using assms(2) sync(1) by simp
    note rs = checkDrift_resync [OF assms(1) sync(3) sync(2) r]
    have eq: "checkStep k e p base c st = checkDrift k e p base (Some r) (snd c) st"
      using sync by (simp add: checkStep_def)
    show ?thesis
      unfolding eq using sync r by (auto simp add: rs)
  qed
  then show "playingSounds (checkStep k e p base c st) = playingSounds st"
    and "sameMix st (checkStep k e p base c st)"
    and "au_playing (sounds (checkStep k e p base c st) x) =
           (if Some x = fst c \<and> x \<noteq> p \<and> drifted base (sounds st x) then True
            else au_playing (sounds st x))"
    and "au_currentTime (sounds (checkStep k e p base c st) x) =
           (if Some x = fst c \<and> x \<noteq> p \<and> drifted base (sounds st x)
            then au_currentTime (sounds st p) else au_currentTime (sounds st x))"
    and "au_duration (sounds (checkStep k e p base c st) x) = au_duration (sounds st x)"
    and "au_loop (sounds (checkStep k e p base c st) x) =
           (if Some x = fst c \<and> x \<noteq> p \<and> drifted base (sounds st x)
            then sd_repeat (sound e) else au_loop (sounds st x))"
    and "x \<notin> entryRefs e \<Longrightarrow> sounds (checkStep k e p base c st) x = sounds st x"
    and "au_volume (sounds (checkStep k e p base c st) x) =
           (if (\<exists>r. Some r = fst c \<and> r \<noteq> p \<and> drifted base (sounds st r)) \<and> x \<in> entryRefs e
            then mixVolumeAt st e x else au_volume (sounds st x))"
    by blast+
qed

lemma runChecks_Nil: "runChecks k e p base [] st = st"
  by (simp add: runChecks_def)

lemma runChecks_Cons:
  "runChecks k e p base (c # cs) st = runChecks k e p base cs (checkStep k e p base c st)"
  by (simp add: runChecks_def)

lemma runChecks_effect:
  assumes "map_of (playingSounds st) k = Some e"
    and "\<forall>c \<in> set cs. set_option (fst c) \<subseteq> entryRefs e"
    and "au_currentTime (sounds st p) = base"
  shows "playingSounds (runChecks k e p base cs st) = playingSounds st \<and>
    sameMix st (runChecks k e p base cs st) \<and>
    (\<forall>x. au_playing (sounds (runChecks k e p base cs st) x) =
           (if resyncs base p cs st x then True else au_playing (sounds st x)) \<and>
         au_currentTime (sounds (runChecks k e p base cs st) x) =
           (if resyncs base p cs st x then base else au_currentTime (sounds st x)) \<and>
         au_duration (sounds (runChecks k e p base cs st) x) = au_duration (sounds st x) \<and>
         au_loop (sounds (runChecks k e p base cs st) x) =
           (if resyncs base p cs st x then sd_repeat (sound e) else au_loop (sounds st x)) \<and>
         (x \<notin> entryRefs e \<longrightarrow> sounds (runChecks k e p base cs st) x = sounds st x) \<and>
         au_volume (sounds (runChecks k e p base cs st) x) =
           (if (\<exists>r. resyncs base p cs st r) \<and> x \<in> entryRefs e
            then mixVolumeAt st e x else au_volume (sounds st x)))"
  using assms
proof (induction cs arbitrary: st)
  case Nil
  show ?case by (simp add: runChecks_Nil sameMix_refl resyncs_def)
next
  case (Cons c cs)
  let ?st1 = "checkStep k e p base c st"
  have cref: "set_option (fst c) \<subseteq> entryRefs e" using Cons.prems(2) by simp
  note step = checkStep_effect [OF Cons.prems(1) cref, where p = p and base = base]
  have e1: "map_of (playingSounds ?st1) k = Some e" using Cons.prems(1) by (simp add: step(1))
  have refs1: "\<forall>c \<in> set cs. set_option (fst c) \<subseteq> entryRefs e" using Cons.prems(2) by simp
  have t1: "au_currentTime (sounds ?st1 p) = base" using Cons.prems(3) by (simp add: step(4))
  note ih = Cons.IH [OF e1 refs1 t1]
  have dr: "drifted base (sounds ?st1 x) =
      (drifted base (sounds st x) \<and> \<not> (Some x = fst c \<and> x \<noteq> p))" for x
    using Cons.prems(3) by (auto simp add: drifted_def step(3,4))
  have rs: "resyncs base p (c # cs) st x =
      (resyncs base p cs ?st1 x \<or> (Some x = fst c \<and> x \<noteq> p \<and> drifted base (sounds st x)))" for x
    by (auto simp add: resyncs_def dr)
  have mv: "mixVolumeAt ?st1 e x = mixVolumeAt st e x" for x
    using step(2) by (rule sameMix_mixVolumeAt)
  have a: "playingSounds (runChecks k e p base (c # cs) st) = playingSounds st"
    using ih by (simp add: runChecks_Cons step(1))
  have b: "sameMix st (runChecks k e p base (c # cs) st)"
    using ih step(2) by (auto simp add: runChecks_Cons intro: sameMix_trans)
  have pl: "au_playing (sounds (runChecks k e p base (c # cs) st) x) =
           (if resyncs base p (c # cs) st x then True else au_playing (sounds st x))" for x
    using ih by (auto simp add: runChecks_Cons rs step(3))
  have tm: "au_currentTime (sounds (runChecks k e p base (c # cs) st) x) =
           (if resyncs base p (c # cs) st x then base else au_currentTime (sounds st x))" for x
    using ih Cons.prems(3) by (auto simp add: runChecks_Cons rs step(4))
  have du: "au_duration (sounds (runChecks k e p base (c # cs) st) x) = au_duration (sounds st x)"
    for x
    using ih by (simp add: runChecks_Cons step(5))
  have lo: "au_loop (sounds (runChecks k e p base (c # cs) st) x) =
           (if resyncs base p (c # cs) st x then sd_repeat (sound e) else au_loop (sounds st x))" for x
    using ih by (auto simp add: runChecks_Cons rs step(6))
  have fr: "x \<notin> entryRefs e \<longrightarrow> sounds (runChecks k e p base (c # cs) st) x = sounds st x" for x
    using ih by (simp add: runChecks_Cons step(7))
  have vo: "au_volume (sounds (runChecks k e p base (c # cs) st) x) =
           (if (\<exists>r. resyncs base p (c # cs) st r) \<and> x \<in> entryRefs e
            then mixVolumeAt st e x else au_volume (sounds st x))" for x
  proof -
    from ih have "au_volume (sounds (runChecks k e p base cs ?st1) x) =
           (if (\<exists>r. resyncs base p cs ?st1 r) \<and> x \<in> entryRefs e
            then mixVolumeAt ?st1 e x else au_volume (sounds ?st1 x))"
      by blast
    then have "au_volume (sounds (runChecks k e p base (c # cs) st) x) =
           (if (\<exists>r. resyncs base p cs ?st1 r) \<and> x \<in> entryRefs e
            then mixVolumeAt st e x else au_volume (sounds ?st1 x))"
      by (simp only: runChecks_Cons mv)
    also have "\<dots> = (if (\<exists>r. resyncs base p (c # cs) st r) \<and> x \<in> entryRefs e
            then mixVolumeAt st e x else au_volume (sounds st x))"
      unfolding step(8) rs by auto
    finally show ?thesis .
  qed
  show ?case using a b pl tm du lo fr vo by blast
qed

lemma driftChecks_refs: "\<forall>c \<in> set (driftChecks e). set_option (fst c) \<subseteq> entryRefs e"
  by (auto simp add: driftChecks_def entryRefs_def)

lemma driftChecks_covers: "Some x \<in> fst ` set (driftChecks e) \<longleftrightarrow> x \<in> entryRefs e"
  by (auto simp add: driftChecks_def entryRefs_def)

lemma primarySound_ref: "primarySound e = Some p \<Longrightarrow> p \<in> entryRefs e"
  by (auto simp add: primarySound_def entryRefs_def split: option.splits)

lemma driftCheckEntry_absent:
  "map_of (playingSounds s) k = None \<Longrightarrow> driftCheckEntry k s = s"
  by (simp add: driftCheckEntry_def)

lemma driftCheckEntry_cases:
  assumes "map_of (playingSounds s) k = Some e"
  shows "primarySound e = None \<Longrightarrow> driftCheckEntry k s = s"
    and "primarySound e = Some p \<Longrightarrow> \<not> au_playing (sounds s p) \<Longrightarrow> driftCheckEntry k s = s"
    and "primarySound e = Some p \<Longrightarrow> au_playing (sounds s p) \<Longrightarrow> trackEnded e (sounds s p) \<Longrightarrow>
         driftCheckEntry k s = stopAdaptiveSound k False s"
    and "primarySound e = Some p \<Longrightarrow> au_playing (sounds s p) \<Longrightarrow> \<not> trackEnded e (sounds s p) \<Longrightarrow>
         driftCheckEntry k s = runChecks k e p (au_currentTime (sounds s p)) (driftChecks e) s"
  using assms
  by (auto simp add: driftCheckEntry_def trackEnded_def Let_def runChecks_def driftChecks_def
      checkStep_def)

text \<open>One loop iteration touches only the sound objects of its own Track Set, removes at most
  its own Track Set, and leaves the mix parameters alone.\<close>

lemma driftCheckEntry_frame:
  assumes "map_of (playingSounds s) k = Some e"
  shows "x \<notin> entryRefs e \<Longrightarrow> sounds (driftCheckEntry k s) x = sounds s x"
    and "sameMix s (driftCheckEntry k s)"
    and "playingSounds (driftCheckEntry k s) = playingSounds s \<or>
         playingSounds (driftCheckEntry k s) = AList.delete k (playingSounds s)"
proof -
  have "(x \<notin> entryRefs e \<longrightarrow> sounds (driftCheckEntry k s) x = sounds s x) \<and>
    sameMix s (driftCheckEntry k s) \<and>
    (playingSounds (driftCheckEntry k s) = playingSounds s \<or>
     playingSounds (driftCheckEntry k s) = AList.delete k (playingSounds s))"
  proof (cases "primarySound e")
    case None
    then show ?thesis by (simp add: driftCheckEntry_cases(1) [OF assms] sameMix_refl)
  next
    case (Some p)
    show ?thesis
    proof (cases "au_playing (sounds s p)")
      case False
      then show ?thesis by (simp add: driftCheckEntry_cases(2) [OF assms Some] sameMix_refl)
    next
      case True
      show ?thesis
      proof (cases "trackEnded e (sounds s p)")
        case ended: True
        show ?thesis
          unfolding driftCheckEntry_cases(3) [OF assms Some True ended]
          by (simp add: stopAdaptiveSound_Some [OF assms] stopLayers_sounds sameMix_def)
      next
        case running: False
        show ?thesis
          unfolding driftCheckEntry_cases(4) [OF assms Some True running]
          using runChecks_effect [OF assms driftChecks_refs refl, of p]
          by simp
      qed
    qed
  qed
  then show "x \<notin> entryRefs e \<Longrightarrow> sounds (driftCheckEntry k s) x = sounds s x"
    and "sameMix s (driftCheckEntry k s)"
    and "playingSounds (driftCheckEntry k s) = playingSounds s \<or>
         playingSounds (driftCheckEntry k s) = AList.delete k (playingSounds s)"
    by blast+
qed

text \<open>The iterations for the other keys leave a Track Set alone whose sound objects they do
  not share.\<close>

lemma driftFold_frame:
  assumes "k0 \<notin> set ks" "map_of (playingSounds st) k0 = Some e"
    and "\<forall>k e'. k \<noteq> k0 \<longrightarrow> map_of (playingSounds st) k = Some e' \<longrightarrow>
           entryRefs e' \<inter> entryRefs e = {}"
  shows "map_of (playingSounds (foldl (\<lambda>st k. driftCheckEntry k st) st ks)) k0 = Some e \<and>
     (\<forall>x \<in> entryRefs e. sounds (foldl (\<lambda>st k. driftCheckEntry k st) st ks) x = sounds st x) \<and>
     sameMix st (foldl (\<lambda>st k. driftCheckEntry k st) st ks) \<and>
     (\<forall>k e'. map_of (playingSounds (foldl (\<lambda>st k. driftCheckEntry k st) st ks)) k = Some e' \<longrightarrow>
        map_of (playingSounds st) k = Some e')"
  using assms
proof (induction ks arbitrary: st)
  case Nil
  then show ?case by (simp add: sameMix_refl)
next
  case (Cons k ks)
  let ?st1 = "driftCheckEntry k st"
  have kk: "k \<noteq> k0" "k0 \<notin> set ks" using Cons.prems(1) by auto
  have step: "map_of (playingSounds ?st1) k0 = Some e \<and>
      (\<forall>x \<in> entryRefs e. sounds ?st1 x = sounds st x) \<and> sameMix st ?st1 \<and>
      (\<forall>k' e'. map_of (playingSounds ?st1) k' = Some e' \<longrightarrow> map_of (playingSounds st) k' = Some e')"
  proof (cases "map_of (playingSounds st) k")
    case None
    then show ?thesis using Cons.prems(2) by (simp add: driftCheckEntry_absent sameMix_refl)
  next
    case (Some e')
    have dj: "entryRefs e' \<inter> entryRefs e = {}" using Cons.prems(3) kk(1) Some by blast
    note fr = driftCheckEntry_frame [OF Some]
    have a: "\<forall>x \<in> entryRefs e. sounds ?st1 x = sounds st x"
      using dj fr(1) by blast
    have b: "\<forall>k' e''. map_of (playingSounds ?st1) k' = Some e'' \<longrightarrow>
        map_of (playingSounds st) k' = Some e''"
      using fr(3) by (auto simp add: AList.delete_conv split: if_splits)
    have c: "map_of (playingSounds ?st1) k0 = Some e"
      using fr(3) kk(1) Cons.prems(2) by (auto simp add: AList.delete_conv)
    show ?thesis using a b c fr(2) by blast
  qed
  have dj1: "\<forall>k' e'. k' \<noteq> k0 \<longrightarrow> map_of (playingSounds ?st1) k' = Some e' \<longrightarrow>
           entryRefs e' \<inter> entryRefs e = {}"
    using step Cons.prems(3) by blast
  have e1: "map_of (playingSounds ?st1) k0 = Some e" using step by blast
  note ih = Cons.IH [OF kk(2) e1 dj1]
  have "sameMix st (foldl (\<lambda>st k. driftCheckEntry k st) ?st1 ks)"
    using step ih by (blast intro: sameMix_trans)
  moreover have "\<forall>x \<in> entryRefs e. sounds (foldl (\<lambda>st k. driftCheckEntry k st) ?st1 ks) x = sounds st x"
    using step ih by simp
  moreover have "\<forall>k' e'. map_of (playingSounds (foldl (\<lambda>st k. driftCheckEntry k st) ?st1 ks)) k' = Some e' \<longrightarrow>
        map_of (playingSounds st) k' = Some e'"
    using step ih by blast
  ultimately show ?case using ih by simp
qed

lemma resyncs_cong:
  assumes "\<forall>x \<in> entryRefs e. sounds st x = sounds s x"
  shows "resyncs base p (driftChecks e) st x = resyncs base p (driftChecks e) s x"
  using assms by (auto simp add: resyncs_def driftChecks_covers)

text \<open>The effect of one monitor tick on a Track Set that reaches the drift checks.\<close>

lemma driftTick_entry:
  assumes keys: "distinct (map fst (playingSounds s))"
    and ent: "map_of (playingSounds s) k0 = Some e"
    and own: "\<forall>k e'. k \<noteq> k0 \<longrightarrow> map_of (playingSounds s) k = Some e' \<longrightarrow>
                entryRefs e' \<inter> entryRefs e = {}"
    and prim: "primarySound e = Some p" "au_playing (sounds s p)" "\<not> trackEnded e (sounds s p)"
    and base: "base = au_currentTime (sounds s p)"
  shows "map_of (playingSounds (driftTick s)) k0 = Some e \<and>
    (\<forall>x \<in> entryRefs e.
       au_playing (sounds (driftTick s) x) =
         (if resyncs base p (driftChecks e) s x then True else au_playing (sounds s x)) \<and>
       au_currentTime (sounds (driftTick s) x) =
         (if resyncs base p (driftChecks e) s x then base else au_currentTime (sounds s x)) \<and>
       au_duration (sounds (driftTick s) x) = au_duration (sounds s x) \<and>
       au_loop (sounds (driftTick s) x) =
         (if resyncs base p (driftChecks e) s x then sd_repeat (sound e)
          else au_loop (sounds s x)) \<and>
       au_volume (sounds (driftTick s) x) =
         (if \<exists>r. resyncs base p (driftChecks e) s r then mixVolumeAt s e x
          else au_volume (sounds s x)))"
proof -
  let ?f = "\<lambda>st k. driftCheckEntry k st"
  have "k0 \<in> set (map fst (playingSounds s))"
    using ent by (metis map_of_eq_None_iff option.distinct(1) set_map)
  then obtain pre post where split: "map fst (playingSounds s) = pre @ k0 # post"
    by (auto dest: split_list)
  have out: "k0 \<notin> set pre" "k0 \<notin> set post"
    using keys unfolding split by auto
  have "playingSounds s \<noteq> []" using ent by auto
  then have tick: "driftTick s = foldl ?f (driftCheckEntry k0 (foldl ?f s pre)) post"
    by (simp add: driftTick_def split)
  let ?sA = "foldl ?f s pre"
  note fa = driftFold_frame [OF out(1) ent own]
  have entA: "map_of (playingSounds ?sA) k0 = Some e" using fa by blast
  have sndA: "\<forall>x \<in> entryRefs e. sounds ?sA x = sounds s x" using fa by blast
  have mixA: "sameMix s ?sA" using fa by blast
  have subA: "\<forall>k e'. map_of (playingSounds ?sA) k = Some e' \<longrightarrow> map_of (playingSounds s) k = Some e'"
    using fa by blast
  have pA: "sounds ?sA p = sounds s p" using sndA primarySound_ref [OF prim(1)] by blast
  let ?sB = "runChecks k0 e p base (driftChecks e) ?sA"
  have stepB: "driftCheckEntry k0 ?sA = ?sB"
    using driftCheckEntry_cases(4) [OF entA prim(1)] prim(2,3) by (simp add: pA base)
  have baseA: "au_currentTime (sounds ?sA p) = base" by (simp add: pA base)
  note rb = runChecks_effect [OF entA driftChecks_refs baseA]
  have entB: "map_of (playingSounds ?sB) k0 = Some e" using rb entA by simp
  have ownB: "\<forall>k e'. k \<noteq> k0 \<longrightarrow> map_of (playingSounds ?sB) k = Some e' \<longrightarrow>
                entryRefs e' \<inter> entryRefs e = {}"
    using rb subA own by simp
  note fc = driftFold_frame [OF out(2) entB ownB]
  have entC: "map_of (playingSounds (driftTick s)) k0 = Some e"
    using fc by (simp add: tick stepB)
  have sndC: "\<forall>x \<in> entryRefs e. sounds (driftTick s) x = sounds ?sB x"
    using fc by (simp add: tick stepB)
  have rsA: "resyncs base p (driftChecks e) ?sA x = resyncs base p (driftChecks e) s x" for x
    using sndA by (rule resyncs_cong)
  have mvA: "mixVolumeAt ?sA e x = mixVolumeAt s e x" for x
    using mixA by (rule sameMix_mixVolumeAt)
  have fields: "au_playing (sounds ?sB x) =
         (if resyncs base p (driftChecks e) s x then True else au_playing (sounds s x)) \<and>
       au_currentTime (sounds ?sB x) =
         (if resyncs base p (driftChecks e) s x then base else au_currentTime (sounds s x)) \<and>
       au_duration (sounds ?sB x) = au_duration (sounds s x) \<and>
       au_loop (sounds ?sB x) =
         (if resyncs base p (driftChecks e) s x then sd_repeat (sound e)
          else au_loop (sounds s x)) \<and>
       au_volume (sounds ?sB x) =
         (if \<exists>r. resyncs base p (driftChecks e) s r then mixVolumeAt s e x
          else au_volume (sounds s x))"
    if "x \<in> entryRefs e" for x
  proof -
    have sx: "sounds ?sA x = sounds s x" using sndA that by blast
    from rb have "au_playing (sounds ?sB x) =
           (if resyncs base p (driftChecks e) ?sA x then True else au_playing (sounds ?sA x)) \<and>
         au_currentTime (sounds ?sB x) =
           (if resyncs base p (driftChecks e) ?sA x then base else au_currentTime (sounds ?sA x)) \<and>
         au_duration (sounds ?sB x) = au_duration (sounds ?sA x) \<and>
         au_loop (sounds ?sB x) =
           (if resyncs base p (driftChecks e) ?sA x then sd_repeat (sound e)
            else au_loop (sounds ?sA x)) \<and>
         au_volume (sounds ?sB x) =
           (if (\<exists>r. resyncs base p (driftChecks e) ?sA r) \<and> x \<in> entryRefs e
            then mixVolumeAt ?sA e x else au_volume (sounds ?sA x))"
      by blast
    then show ?thesis
      unfolding rsA mvA sx using that by simp
  qed
  show ?thesis
    using entC sndC fields by simp
qed

text \<open>
  Claim C4, as the code has it. In a Track Set whose primary layer is playing and is not taken
  as finished in this tick, one monitor tick leaves every secondary layer that was playing more
  than 0.1 s away from the primary playing at the primary's elapsed time, with no drift left;
  every layer of the Track Set then carries the volume of the mix calculation; the primary and
  the layers that had not drifted keep their playback state and position, only their volume is
  rewritten; and the Track Set stays registered. (Sound objects belong to one Track Set only,
  and the keys of the map are unique.)
\<close>

theorem driftTick_resync:
  assumes "distinct (map fst (playingSounds s))"
    and "map_of (playingSounds s) soundId = Some e"
    and "\<forall>k e'. k \<noteq> soundId \<longrightarrow> map_of (playingSounds s) k = Some e' \<longrightarrow>
           entryRefs e' \<inter> entryRefs e = {}"
    and "primarySound e = Some p" "au_playing (sounds s p)" "\<not> trackEnded e (sounds s p)"
    and "r \<in> entryRefs e" "r \<noteq> p" "drifted (au_currentTime (sounds s p)) (sounds s r)"
  shows "sounds (driftTick s) r =
           (sounds s r)\<lparr>au_playing := True, au_currentTime := au_currentTime (sounds s p),
                         au_volume := mixVolumeAt s e r, au_loop := sd_repeat (sound e)\<rparr> \<and>
         \<bar>au_currentTime (sounds (driftTick s) r) - au_currentTime (sounds (driftTick s) p)\<bar> = 0 \<and>
         sounds (driftTick s) p = (sounds s p)\<lparr>au_volume := mixVolumeAt s e p\<rparr> \<and>
         (\<forall>x \<in> entryRefs e. \<not> drifted (au_currentTime (sounds s p)) (sounds s x) \<longrightarrow>
            sounds (driftTick s) x = (sounds s x)\<lparr>au_volume := mixVolumeAt s e x\<rparr>) \<and>
         map_of (playingSounds (driftTick s)) soundId = Some e"
proof -
  let ?base = "au_currentTime (sounds s p)"
  note t = driftTick_entry [OF assms(1-6) refl]
  have rr: "resyncs ?base p (driftChecks e) s r"
    using assms(7-9) by (simp add: resyncs_def driftChecks_covers)
  then have ex: "\<exists>x. resyncs ?base p (driftChecks e) s x" by blast
  have np: "\<not> resyncs ?base p (driftChecks e) s p" by (simp add: resyncs_def)
  have pr: "p \<in> entryRefs e" using assms(4) by (rule primarySound_ref)
  have a: "sounds (driftTick s) r =
           (sounds s r)\<lparr>au_playing := True, au_currentTime := ?base,
                         au_volume := mixVolumeAt s e r, au_loop := sd_repeat (sound e)\<rparr>"
    using t assms(7) rr ex by (intro audio.equality) simp_all
  have b: "sounds (driftTick s) p = (sounds s p)\<lparr>au_volume := mixVolumeAt s e p\<rparr>"
    using t pr np ex by (intro audio.equality) simp_all
  have c: "sounds (driftTick s) x = (sounds s x)\<lparr>au_volume := mixVolumeAt s e x\<rparr>"
    if "x \<in> entryRefs e" "\<not> drifted ?base (sounds s x)" for x
  proof -
    have "\<not> resyncs ?base p (driftChecks e) s x" using that(2) by (simp add: resyncs_def)
    then show ?thesis using t that(1) ex by (intro audio.equality) simp_all
  qed
  have d: "\<bar>au_currentTime (sounds (driftTick s) r) - au_currentTime (sounds (driftTick s) p)\<bar> = 0"
    by (simp add: a b)
  show ?thesis using a b c d t by blast
qed

theorem driftTick_resync_witness:
  "distinct (map fst (playingSounds exampleState)) \<and>
   map_of (playingSounds exampleState) ''A'' = Some entryA \<and>
   primarySound entryA = Some 0 \<and> au_playing (sounds exampleState 0) \<and>
   \<not> trackEnded entryA (sounds exampleState 0) \<and>
   2 \<in> entryRefs entryA \<and>
   drifted (au_currentTime (sounds exampleState 0)) (sounds exampleState 2) \<and>
   au_currentTime (sounds exampleState 2) - au_currentTime (sounds exampleState 0) = 0.15 \<and>
   sounds (driftTick exampleState) 2 = playingAt 10 0 \<and>
   sounds (driftTick exampleState) 0 = playingAt 10 1 \<and>
   sounds (driftTick exampleState) 1 = playingAt 10 1"
proof -
  have h: "distinct (map fst (playingSounds exampleState))"
    "map_of (playingSounds exampleState) ''A'' = Some entryA"
    "\<forall>k e'. k \<noteq> ''A'' \<longrightarrow> map_of (playingSounds exampleState) k = Some e' \<longrightarrow>
           entryRefs e' \<inter> entryRefs entryA = {}"
    by (simp_all add: exampleState_def)
  have p: "primarySound entryA = Some 0" "(2::nat) \<in> entryRefs entryA" "(2::nat) \<noteq> 0"
    "(1::nat) \<in> entryRefs entryA"
    by (simp_all add: primarySound_def entryA_def entryRefs_def)
  have snd: "sounds exampleState 0 = playingAt 10 1" "sounds exampleState (Suc 0) = playingAt 10 1"
    "sounds exampleState 2 = playingAt 10.15 0"
    by (simp_all add: exampleState_def)
  have q: "au_playing (sounds exampleState 0)" "\<not> trackEnded entryA (sounds exampleState 0)"
    "drifted (au_currentTime (sounds exampleState 0)) (sounds exampleState 2)"
    "\<not> drifted (au_currentTime (sounds exampleState 0)) (sounds exampleState 1)"
    "au_currentTime (sounds exampleState 2) - au_currentTime (sounds exampleState 0) = 0.15"
    by (simp_all add: snd playingAt_def trackEnded_def entryA_def soundA_def drifted_def)
  have mv: "mixVolumes exampleState entryA = (1, 1, 0)"
    by (simp add: mixVolumes_def Let_def exampleState_def entryA_def soundA_def orOne_def
        low_closed mid_closed high_closed)
  have v: "mixVolumeAt exampleState entryA 0 = 1" "mixVolumeAt exampleState entryA (Suc 0) = 1"
    "mixVolumeAt exampleState entryA 2 = 0"
    by (simp_all add: mixVolumeAt_def mv) (simp_all add: entryA_def)
  have rp: "sd_repeat (sound entryA)" by (simp add: entryA_def soundA_def)
  note t = driftTick_resync [OF h p(1) q(1,2) p(2,3) q(3)]
  have "sounds (driftTick exampleState) 2 = playingAt 10 0"
    using t by (simp add: snd v rp playingAt_def)
  moreover have "sounds (driftTick exampleState) 0 = playingAt 10 1"
    using t by (simp add: snd v playingAt_def)
  moreover have "sounds (driftTick exampleState) 1 = playingAt 10 1"
    using t p(4) q(4) by (simp add: snd v playingAt_def)
  ultimately show ?thesis using h(1,2) p(1,2) q(1,2,3,5) by (intro conjI)
qed

text \<open>The claim as written fails when the tick takes the track as finished: sound \<open>A\<close> does not
  repeat and its primary layer is 0.1 s before its end, the high layer 0.15 s behind. The tick
  stops the whole Track Set, the primary included, and the high layer is not restarted.\<close>

theorem driftTick_resync_counterexample:
  "primarySound entryA = Some 0 \<and> highSound entryA = Some 2 \<and>
   au_playing (sounds endingState 0) \<and> au_playing (sounds endingState 2) \<and>
   au_currentTime (sounds endingState 0) - au_currentTime (sounds endingState 2) = 0.15 \<and>
   \<not> au_playing (sounds (driftTick endingState) 0) \<and>
   \<not> au_playing (sounds (driftTick endingState) 2) \<and>
   au_currentTime (sounds (driftTick endingState) 2) = 59.75 \<and>
   playingSounds (driftTick endingState) = []"
proof -
  let ?e = "entryA\<lparr>sound := soundA\<lparr>sd_repeat := False\<rparr>\<rparr>"
  have ent: "map_of (playingSounds endingState) ''A'' = Some ?e"
    and keys: "map fst (playingSounds endingState) = [''A'']"
    and ne: "playingSounds endingState \<noteq> []"
    by (simp_all add: endingState_def)
  have snd: "sounds endingState 0 = playingAt 59.9 1" "sounds endingState 2 = playingAt 59.75 0"
    by (simp_all add: endingState_def)
  have pr: "primarySound ?e = Some 0" "primarySound entryA = Some 0" "highSound entryA = Some 2"
    by (simp_all add: primarySound_def entryA_def)
  have pl: "au_playing (sounds endingState 0)" "trackEnded ?e (sounds endingState 0)"
    by (simp_all add: snd playingAt_def trackEnded_def)
  have tick: "driftTick endingState = stopAdaptiveSound ''A'' False endingState"
    using ne by (simp add: driftTick_def keys driftCheckEntry_cases(3) [OF ent pr(1) pl])
  have refs: "0 \<in> entryRefs ?e" "2 \<in> entryRefs ?e"
    by (simp_all add: entryRefs_def entryA_def)
  have del: "AList.delete ''A'' (playingSounds endingState) = []"
    by (simp add: endingState_def)
  show ?thesis
    using refs pr(2,3)
    by (simp add: tick stopAdaptiveSound_Some [OF ent] stopLayers_sounds del snd playingAt_def)
qed

section \<open>The fade timer under every event\<close>



lemma driftOnly_same:
  "timers s' = timers s \<Longrightarrow> fadeInterval s' = fadeInterval s \<Longrightarrow> nextTimer s' = nextTimer s \<Longrightarrow>
   driftOnly s s'"
  by (simp add: driftOnly_def)




















lemma setGlobalIntensity_driftOnly: "driftOnly s (setGlobalIntensity v fromSync s)"
  by (intro driftOnly_same) (simp_all add: setGlobalIntensity_fields)














end
